theory Spec2Isabelle
  imports Main "HOL-Library.Multiset" "HOL-Library.Sublist"
begin

text \<open>
  A shallow embedding of the Kaido web front end: the fallback generator and
  the loader of the compiled core, the slug conversions, the feature
  selection of the custom builder, the serialisers of the custom
  specification, the wizard's \<^verbatim>\<open>regenerate\<close> and the file tree. Strings are
  lists of bytes, objects read untyped are \<open>jsval\<close>, an exception is the
  \<open>Inl\<close> of a sum, and component or module state is passed explicitly.
\<close>

section \<open>JavaScript values and strings\<close>

text \<open>
  The web front end is TypeScript; the values it passes around untyped
  (\<^verbatim>\<open>Record<string, unknown>\<close>, the result of indexing a plain object) are
  modelled by \<open>jsval\<close>. \<open>JOther r t\<close> stands for any value that is not
  \<^verbatim>\<open>undefined\<close>, \<^verbatim>\<open>null\<close>, a boolean or a string (a number, an object, an
  array, a function): the code below only ever converts such a value with
  \<^verbatim>\<open>String(...)\<close>, tests its truthiness or compares it, so it is given by its
  rendering \<open>r\<close> and its truthiness \<open>t\<close>.
\<close>

datatype jsval = JUndefined | JNull | JBool bool | JStr string | JOther string bool

datatype error = Error string | TypeError string

text \<open>The operator \<^verbatim>\<open>a ?? b\<close>.\<close>

fun nullish_or :: "jsval \<Rightarrow> jsval \<Rightarrow> jsval" where
  "nullish_or JUndefined d = d"
| "nullish_or JNull d = d"
| "nullish_or v d = v"

text \<open>The conversion \<^verbatim>\<open>String(v)\<close>.\<close>

fun js_String :: "jsval \<Rightarrow> string" where
  "js_String JUndefined = ''undefined''"
| "js_String JNull = ''null''"
| "js_String (JBool b) = (if b then ''true'' else ''false'')"
| "js_String (JStr s) = s"
| "js_String (JOther r t) = r"

text \<open>Truthiness, as tested by \<^verbatim>\<open>v ? a : b\<close> and \<^verbatim>\<open>!v\<close>.\<close>

fun truthy :: "jsval \<Rightarrow> bool" where
  "truthy JUndefined = False"
| "truthy JNull = False"
| "truthy (JBool b) = b"
| "truthy (JStr s) = (s \<noteq> [])"
| "truthy (JOther r t) = t"

text \<open>
  An options object: its own properties. Reading a property that is absent
  gives \<^verbatim>\<open>undefined\<close> (none of the keys read below is inherited from
  \<^verbatim>\<open>Object.prototype\<close>).
\<close>

type_synonym options = "string \<rightharpoonup> jsval"

definition get_prop :: "options \<Rightarrow> string \<Rightarrow> jsval" where
  "get_prop opts k = (case opts k of None \<Rightarrow> JUndefined | Some v \<Rightarrow> v)"

definition dq :: string where
  "dq = [CHR 0x22]"

text \<open>\<^verbatim>\<open>xs.join(sep)\<close> on an array of strings.\<close>

fun join :: "string \<Rightarrow> string list \<Rightarrow> string" where
  "join sep [] = []"
| "join sep [x] = x"
| "join sep (x # y # ys) = x @ sep @ join sep (y # ys)"

text \<open>
  \<^verbatim>\<open>s.split(c)\<close> for a one-character separator: the first argument is the
  segment read so far. The result is never empty.
\<close>

fun split_acc :: "char \<Rightarrow> string \<Rightarrow> string \<Rightarrow> string list" where
  "split_acc c cur [] = [cur]"
| "split_acc c cur (x # xs) =
     (if x = c then cur # split_acc c [] xs else split_acc c (cur @ [x]) xs)"

definition split :: "char \<Rightarrow> string \<Rightarrow> string list" where
  "split c s = split_acc c [] s"

section \<open>Fallback code generation (src/web/src/lib/wasm.ts)\<close>

record GeneratedFile =
  path :: string
  content :: string

definition generateTypesFile :: "string \<Rightarrow> options \<Rightarrow> string" where
  "generateTypesFile template opts =
     (if template = ''mint'' then
        (if truthy (get_prop opts ''time_lock'')
         then ''pub type MintDatum {\<newline>  admin: ByteArray,\<newline>  deadline: Int,\<newline>}\<newline>\<newline>pub type MintRedeemer {\<newline>  Mint\<newline>  Burn\<newline>}\<newline>''
         else ''pub type MintRedeemer {\<newline>  Mint\<newline>  Burn\<newline>}\<newline>'')
      else if template = ''vesting'' then
        ''pub type VestingDatum {\<newline>  owner: ByteArray,\<newline>  beneficiary: ByteArray,\<newline>  deadline: Int,\<newline>  amount: Int,\<newline>}\<newline>\<newline>pub type VestingRedeemer {\<newline>  Claim\<newline>'' @ (if truthy (get_prop opts ''cancellable'') then ''  Cancel\<newline>'' else []) @ ''}\<newline>''
      else if template = ''escrow'' then
        ''pub type EscrowDatum {\<newline>  buyer: ByteArray,\<newline>  seller: ByteArray,\<newline>  amount: Int,\<newline>  deadline: Int,\<newline>}\<newline>\<newline>pub type EscrowRedeemer {\<newline>  Complete\<newline>  Cancel\<newline>  Reclaim\<newline>}\<newline>''
      else
        ''pub type Datum {\<newline>  admin: ByteArray,\<newline>}\<newline>\<newline>pub type Redeemer {\<newline>  Execute\<newline>}\<newline>'')"

definition generateValidatorFile :: "string \<Rightarrow> string \<Rightarrow> string \<Rightarrow> string" where
  "generateValidatorFile template ns name =
     (let modPath = ns @ ''/'' @ name @ ''/types'' in
      if template = ''mint'' then
        ''use cardano/transaction.{Transaction}\<newline>use '' @ modPath @ ''.{MintRedeemer}\<newline>\<newline>validator '' @ name @ ''(admin: ByteArray) {\<newline>  mint(redeemer: MintRedeemer, _policy_id: ByteArray, self: Transaction) {\<newline>    when redeemer is {\<newline>      MintRedeemer.Mint -> {\<newline>        let must_be_signed = list.has(self.extra_signatories, admin)\<newline>        must_be_signed\<newline>      }\<newline>      MintRedeemer.Burn -> True\<newline>    }\<newline>  }\<newline>\<newline>  else(_) {\<newline>    fail\<newline>  }\<newline>}\<newline>''
      else if template = ''vesting'' then
        ''use cardano/transaction.{Transaction}\<newline>use '' @ modPath @ ''.{VestingDatum, VestingRedeemer}\<newline>\<newline>validator '' @ name @ '' {\<newline>  spend(datum_opt: Option<VestingDatum>, redeemer: VestingRedeemer, _input: Data, self: Transaction) {\<newline>    expect Some(datum) = datum_opt\<newline>    when redeemer is {\<newline>      VestingRedeemer.Claim -> {\<newline>        let signed_by_beneficiary = list.has(self.extra_signatories, datum.beneficiary)\<newline>        let after_deadline = when self.validity_range.lower_bound.bound_type is {\<newline>          Finite(lower) -> lower >= datum.deadline\<newline>          _ -> False\<newline>        }\<newline>        signed_by_beneficiary && after_deadline\<newline>      }\<newline>    }\<newline>  }\<newline>\<newline>  else(_) {\<newline>    fail\<newline>  }\<newline>}\<newline>''
      else
        ''use cardano/transaction.{Transaction}\<newline>use '' @ modPath @ ''.{Datum, Redeemer}\<newline>\<newline>validator '' @ name @ '' {\<newline>  spend(datum_opt: Option<Datum>, redeemer: Redeemer, _input: Data, self: Transaction) {\<newline>    expect Some(datum) = datum_opt\<newline>    when redeemer is {\<newline>      Redeemer.Execute -> {\<newline>        list.has(self.extra_signatories, datum.admin)\<newline>      }\<newline>    }\<newline>  }\<newline>\<newline>  else(_) {\<newline>    fail\<newline>  }\<newline>}\<newline>'')"

text \<open>The manifest text built at the top of \<^verbatim>\<open>generateFallback\<close>.\<close>

definition aikenToml :: "string \<Rightarrow> string \<Rightarrow> string" where
  "aikenToml ns name =
     ''name = '' @ dq @ ns @ ''/'' @ name @ dq @
     ''\<newline>version = '' @ dq @ ''0.0.1'' @ dq @
     ''\<newline>compiler = '' @ dq @ ''v1.1.21'' @ dq @
     ''\<newline>plutus = '' @ dq @ ''v3'' @ dq @
     ''\<newline>license = '' @ dq @ ''Apache-2.0'' @ dq @
     ''\<newline>\<newline>[repository]\<newline>user = '' @ dq @ ns @ dq @
     ''\<newline>project = '' @ dq @ name @ dq @
     ''\<newline>platform = '' @ dq @ ''github'' @ dq @
     ''\<newline>\<newline>['' @ ''[dependencies]'' @ '']\<newline>name = '' @ dq @ ''aiken-lang/stdlib'' @ dq @
     ''\<newline>version = '' @ dq @ ''v3.0.0'' @ dq @
     ''\<newline>source = '' @ dq @ ''github'' @ dq @ ''\<newline>''"

definition generateFallback :: "options \<Rightarrow> GeneratedFile list" where
  "generateFallback opts =
     (let ns = js_String (nullish_or (get_prop opts ''namespace'') (JStr ''myorg''));
          name = js_String (nullish_or (get_prop opts ''project_name'') (JStr ''my_contract''));
          template = js_String (nullish_or (get_prop opts ''template'') (JStr ''mint''));
          typesAk = generateTypesFile template opts;
          validatorAk = generateValidatorFile template ns name
      in [\<lparr>path = ''aiken.toml'', content = aikenToml ns name\<rparr>,
          \<lparr>path = ''lib/'' @ ns @ ''/'' @ name @ ''/types.ak'', content = typesAk\<rparr>,
          \<lparr>path = ''validators/'' @ name @ ''.ak'', content = validatorAk\<rparr>])"

section \<open>The WASM loader and the exported entry points (src/web/src/lib/wasm.ts)\<close>

record TemplateInfo =
  slug :: string
  t_description :: string
  t_options :: "string list option"
  supports_sdk :: "bool option"

record FeatureInfo =
  f_name :: string
  f_description :: string
  purpose :: "string option"
  depends_on :: "string list"

record ValidationResult =
  valid :: bool
  errors :: "string list"

text \<open>
  The compiled core \<^verbatim>\<open>../wasm/kaido_core\<close> is not part of these sources; only
  its type declarations are. It is a parameter of the model: each entry is the
  exported function together with the \<^verbatim>\<open>JSON.stringify\<close> of its argument and
  the \<^verbatim>\<open>JSON.parse\<close> of its result, and \<open>Inl\<close> is a thrown exception.
\<close>

record wasm_module =
  w_list_templates :: "TemplateInfo list"
  w_list_features :: "FeatureInfo list"
  w_generate :: "options \<Rightarrow> error + GeneratedFile list"
  w_generate_sdk :: "options \<Rightarrow> error + GeneratedFile list"
  w_validate_custom :: "options \<Rightarrow> error + ValidationResult"

text \<open>
  The module-level variables \<^verbatim>\<open>wasm\<close> and \<^verbatim>\<open>wasmFailed\<close>. The promise
  \<^verbatim>\<open>loading\<close> only makes concurrent callers wait for the one import that is
  under way; calls are modelled one after the other, so it is left out.
\<close>

record module_state =
  wasm :: "wasm_module option"
  wasmFailed :: bool

text \<open>
  \<^verbatim>\<open>loadWasm\<close>: the first argument is the outcome of the dynamic import and the
  initialisation of the module, should this call attempt it (\<open>None\<close> when
  either throws).
\<close>

definition loadWasm :: "wasm_module option \<Rightarrow> module_state \<Rightarrow> module_state" where
  "loadWasm imported s =
     (if wasm s \<noteq> None then s
      else if wasmFailed s then s
      else (case imported of
              Some m \<Rightarrow> s\<lparr>wasm := Some m\<rparr>
            | None \<Rightarrow> s\<lparr>wasmFailed := True\<rparr>))"

text \<open>\<^verbatim>\<open>generate\<close>; \<open>dev\<close> is the build-time constant \<^verbatim>\<open>import.meta.env.DEV\<close>.\<close>

definition generate ::
  "bool \<Rightarrow> wasm_module option \<Rightarrow> options \<Rightarrow> module_state
     \<Rightarrow> (error + GeneratedFile list) \<times> module_state" where
  "generate dev imported opts s =
     (let s' = loadWasm imported s in
      case wasm s' of
        None \<Rightarrow>
          (if dev then (Inr (generateFallback opts), s')
           else (Inl (Error ''WASM generation unavailable. Build web with `npm run build:full`.''), s'))
      | Some m \<Rightarrow> (w_generate m opts, s'))"

definition generateSdk ::
  "bool \<Rightarrow> wasm_module option \<Rightarrow> options \<Rightarrow> module_state
     \<Rightarrow> (error + GeneratedFile list) \<times> module_state" where
  "generateSdk dev imported opts s =
     (let s' = loadWasm imported s in
      case wasm s' of
        None \<Rightarrow>
          (if dev then (Inr [], s')
           else (Inl (Error ''WASM SDK generation unavailable. Build web with `npm run build:full`.''), s'))
      | Some m \<Rightarrow> (w_generate_sdk m opts, s'))"

definition validateCustom ::
  "bool \<Rightarrow> wasm_module option \<Rightarrow> options \<Rightarrow> module_state
     \<Rightarrow> (error + ValidationResult) \<times> module_state" where
  "validateCustom dev imported opts s =
     (let s' = loadWasm imported s in
      case wasm s' of
        None \<Rightarrow>
          (if dev
           then (Inr \<lparr>valid = False,
                      errors = [''WASM validator unavailable in dev fallback mode.'']\<rparr>, s')
           else (Inl (Error ''WASM validation unavailable. Build web with `npm run build:full`.''), s'))
      | Some m \<Rightarrow> (w_validate_custom m opts, s'))"

section \<open>Identifier input (ConfigPanel, in src/web/src/components/DownloadButton.tsx)\<close>

text \<open>The character class \<^verbatim>\<open>[a-z0-9_]\<close>.\<close>

definition ident_char :: "char \<Rightarrow> bool" where
  "ident_char c = (c \<in> set ''abcdefghijklmnopqrstuvwxyz0123456789_'')"

text \<open>
  The handlers of the Namespace and Project Name inputs store
  \<^verbatim>\<open>v.replace(/[^a-z0-9_]/g, '')\<close>.
\<close>

definition sanitizeIdent :: "string \<Rightarrow> string" where
  "sanitizeIdent v = filter ident_char v"

text \<open>
  What the data model asks of a generated path: relative, and every
  \<^verbatim>\<open>/\<close>-separated segment non-empty, other than \<^verbatim>\<open>..\<close> and free of
  backslashes.
\<close>

definition is_relative :: "string \<Rightarrow> bool" where
  "is_relative p = (p \<noteq> [] \<and> hd p \<noteq> CHR ''/'')"

definition segment_ok :: "string \<Rightarrow> bool" where
  "segment_ok seg = (seg \<noteq> [] \<and> seg \<noteq> ''..'' \<and> CHR 0x5C \<notin> set seg)"

definition path_ok :: "string \<Rightarrow> bool" where
  "path_ok p = (is_relative p \<and> list_all segment_ok (split CHR ''/'' p))"

section \<open>Template slugs (lib/template-icons, in src/unnamed/part_001)\<close>

text \<open>
  Strings are lists of bytes; \<^verbatim>\<open>toLowerCase\<close> is modelled on the ASCII
  letters, every other byte is left as it is.
\<close>

definition to_lower :: "char \<Rightarrow> char" where
  "to_lower c =
     (case map_of (zip ''ABCDEFGHIJKLMNOPQRSTUVWXYZ'' ''abcdefghijklmnopqrstuvwxyz'') c of
        Some l \<Rightarrow> l
      | None \<Rightarrow> c)"

definition toLowerCase :: "string \<Rightarrow> string" where
  "toLowerCase s = map to_lower s"

text \<open>
  \<^verbatim>\<open>SLUG_ALIASES\<close> and \<^verbatim>\<open>REVERSE_SLUG_ALIASES\<close> are plain objects, and
  \<^verbatim>\<open>obj[key]\<close> on a plain object finds the properties the object inherits
  from \<^verbatim>\<open>Object.prototype\<close> as well as its own: \<^verbatim>\<open>obj['constructor']\<close> is
  the function \<^verbatim>\<open>Object\<close>, \<^verbatim>\<open>obj['__proto__']\<close> is \<^verbatim>\<open>Object.prototype\<close>
  itself. \<open>object_prototype\<close> lists them; \<open>obj_get\<close> is the property read.
\<close>

definition native_function :: "string \<Rightarrow> jsval" where
  "native_function nm = JOther (''function '' @ nm @ ''() { [native code] }'') True"

definition capitalised_prototype_keys :: "string list" where
  "capitalised_prototype_keys =
     [''hasOwnProperty'', ''isPrototypeOf'', ''propertyIsEnumerable'',
      ''toLocaleString'', ''toString'', ''valueOf'',
      ''__defineGetter__'', ''__defineSetter__'',
      ''__lookupGetter__'', ''__lookupSetter__'']"

definition object_prototype :: "string \<Rightarrow> jsval" where
  "object_prototype k =
     (if k = ''constructor'' then native_function ''Object''
      else if k = ''__proto__'' then JOther ''[object Object]'' True
      else if k \<in> set capitalised_prototype_keys then native_function k
      else JUndefined)"

definition obj_get :: "(string \<rightharpoonup> string) \<Rightarrow> string \<Rightarrow> jsval" where
  "obj_get obj k = (case obj k of Some v \<Rightarrow> JStr v | None \<Rightarrow> object_prototype k)"

text \<open>\<^verbatim>\<open>Object.fromEntries\<close>: a later entry with the same key replaces an earlier one.\<close>

definition fromEntries :: "(string \<times> string) list \<Rightarrow> (string \<rightharpoonup> string)" where
  "fromEntries es = foldl (\<lambda>m (k, v). m(k \<mapsto> v)) Map.empty es"

text \<open>The entries of the object literal \<^verbatim>\<open>SLUG_ALIASES\<close>, in source order.\<close>

definition SLUG_ALIASES :: "(string \<times> string) list" where
  "SLUG_ALIASES =
     [(''simple_mint'', ''mint''),
      (''multisig_treasury'', ''treasury''),
      (''nft_marketplace'', ''marketplace''),
      (''staking_pool'', ''staking''),
      (''oracle_settlement'', ''oracle''),
      (''referral_system'', ''referral''),
      (''dex_pool'', ''dex''),
      (''lending_pool'', ''lending''),
      (''dao_governance'', ''governance''),
      (''streaming_payments'', ''streaming'')]"

definition REVERSE_SLUG_ALIASES :: "string \<rightharpoonup> string" where
  "REVERSE_SLUG_ALIASES =
     fromEntries (map (\<lambda>(longSlug, shortSlug). (shortSlug, longSlug)) SLUG_ALIASES)"

definition normalizeSlug :: "string \<Rightarrow> string" where
  "normalizeSlug sl = map (\<lambda>c. if c = CHR ''-'' then CHR ''_'' else c) (toLowerCase sl)"

text \<open>
  The two conversions are declared to return \<^verbatim>\<open>string\<close>; what they return at
  run time is whatever the property read yields, hence \<open>jsval\<close>.
\<close>

definition toShortTemplateSlug :: "string \<Rightarrow> jsval" where
  "toShortTemplateSlug sl =
     (let normalized = normalizeSlug sl
      in nullish_or (obj_get (map_of SLUG_ALIASES) normalized) (JStr normalized))"

definition toLongTemplateSlug :: "string \<Rightarrow> jsval" where
  "toLongTemplateSlug sl =
     (let short = toShortTemplateSlug sl
      in nullish_or (obj_get REVERSE_SLUG_ALIASES (js_String short)) short)"

text \<open>
  Passing a run-time value to a function that starts by calling
  \<^verbatim>\<open>slug.toLowerCase()\<close> on its argument: any value but a string has no such
  method, and the call throws a \<^verbatim>\<open>TypeError\<close>.
\<close>

definition call_with :: "(string \<Rightarrow> 'a) \<Rightarrow> jsval \<Rightarrow> error + 'a" where
  "call_with f v =
     (case v of
        JStr s \<Rightarrow> Inr (f s)
      | _ \<Rightarrow> Inl (TypeError ''slug.toLowerCase is not a function''))"

section \<open>Feature selection (src/web/src/components/CustomConfig.tsx)\<close>

definition FALLBACK_FEATURES :: "FeatureInfo list" where
  "FALLBACK_FEATURES =
     [\<lparr>f_name = ''signature-auth'',
       f_description = ''Require a specific signer in extra_signatories'',
       purpose = None, depends_on = []\<rparr>,
      \<lparr>f_name = ''timelock'',
       f_description = ''Enforce validity_range before/after a deadline field'',
       purpose = Some ''spend'', depends_on = []\<rparr>,
      \<lparr>f_name = ''datum-continuity'',
       f_description = ''Find continuing output and validate datum preservation'',
       purpose = Some ''spend'', depends_on = []\<rparr>,
      \<lparr>f_name = ''value-preservation'',
       f_description = ''Verify lovelace math (input >= output)'',
       purpose = Some ''spend'', depends_on = [''datum-continuity'']\<rparr>,
      \<lparr>f_name = ''reference-safety'',
       f_description = ''Reject reference script injection on continuing output'',
       purpose = Some ''spend'', depends_on = [''datum-continuity'']\<rparr>,
      \<lparr>f_name = ''burn-verification'',
       f_description = ''Check all minted quantities are negative (mint-only)'',
       purpose = Some ''mint'', depends_on = []\<rparr>,
      \<lparr>f_name = ''bounded-operations'',
       f_description = ''Enforce minimum lovelace floor on continuing output'',
       purpose = Some ''spend'', depends_on = [''datum-continuity'']\<rparr>]"

definition listFeaturesFallback :: "FeatureInfo list" where
  "listFeaturesFallback = FALLBACK_FEATURES"

text \<open>
  \<^verbatim>\<open>[...new Set(xs)]\<close>: a \<^verbatim>\<open>Set\<close> keeps its elements in insertion order and
  ignores the insertion of an element it already holds.
\<close>

definition set_add :: "'a list \<Rightarrow> 'a \<Rightarrow> 'a list" where
  "set_add acc x = (if x \<in> set acc then acc else acc @ [x])"

definition array_of_Set :: "'a list \<Rightarrow> 'a list" where
  "array_of_Set xs = foldl set_add [] xs"

text \<open>\<^verbatim>\<open>features.find((f) => f.name === name)?.depends_on ?? []\<close>.\<close>

definition feature_deps :: "FeatureInfo list \<Rightarrow> string \<Rightarrow> string list" where
  "feature_deps features name =
     (case find (\<lambda>f. f_name f = name) features of
        None \<Rightarrow> []
      | Some feature \<Rightarrow> depends_on feature)"

text \<open>
  \<^verbatim>\<open>toggleFeature\<close>: the catalogue \<^verbatim>\<open>features\<close> and the current selection are
  component state, here arguments; the result is the selection handed to
  \<^verbatim>\<open>onChange\<close>.
\<close>

definition toggleFeature :: "FeatureInfo list \<Rightarrow> string list \<Rightarrow> string \<Rightarrow> string list" where
  "toggleFeature features selectedFeatures name =
     (if name \<in> set selectedFeatures
      then filter (\<lambda>f. f \<noteq> name) selectedFeatures
      else (let deps = feature_deps features name
            in array_of_Set (selectedFeatures @ [name] @ deps)))"

text \<open>
  The checkbox of a feature is rendered with
  \<^verbatim>\<open>disabled={isDep && checked}\<close>; a disabled checkbox does not call
  \<^verbatim>\<open>toggleFeature\<close>.
\<close>

definition isDep :: "FeatureInfo list \<Rightarrow> string list \<Rightarrow> string \<Rightarrow> bool" where
  "isDep features selectedFeatures fname =
     list_ex (\<lambda>sel. case find (\<lambda>x. f_name x = sel) features of
                       None \<Rightarrow> False
                     | Some feat \<Rightarrow> fname \<in> set (depends_on feat)) selectedFeatures"

definition checkbox_disabled :: "FeatureInfo list \<Rightarrow> string list \<Rightarrow> string \<Rightarrow> bool" where
  "checkbox_disabled features selectedFeatures fname =
     (isDep features selectedFeatures fname \<and> fname \<in> set selectedFeatures)"

text \<open>
  A selection is dependency-closed when every dependency of every selected
  feature is selected; \<open>dep_rel\<close> is the catalogue's dependency relation.
\<close>

definition deps_selected :: "FeatureInfo list \<Rightarrow> string list \<Rightarrow> bool" where
  "deps_selected features sel =
     list_all (\<lambda>s. list_all (\<lambda>d. d \<in> set sel) (feature_deps features s)) sel"


text \<open>
  A catalogue in which the features that others depend on have no
  dependencies of their own, as in the fallback catalogue.
\<close>

definition flat_catalogue :: "FeatureInfo list \<Rightarrow> bool" where
  "flat_catalogue features =
     list_all (\<lambda>f. list_all (\<lambda>d. feature_deps features d = [])
                       (feature_deps features (f_name f))) features"

text \<open>
  The selections the component can show: it starts with none selected
  (\<^verbatim>\<open>config.features ?? []\<close>) and changes by \<^verbatim>\<open>toggleFeature\<close> on a checkbox
  that is not disabled.
\<close>

inductive reachable_selection :: "FeatureInfo list \<Rightarrow> string list \<Rightarrow> bool"
  for features :: "FeatureInfo list" where
  initial: "reachable_selection features []"
| click: "reachable_selection features sel \<Longrightarrow> \<not> checkbox_disabled features sel name
    \<Longrightarrow> reachable_selection features (toggleFeature features sel name)"

section \<open>Serialising the custom specification (Wizard, in src/web/src/pages/Docs.tsx)\<close>

record FieldSpec =
  field_name :: string
  field_type :: string

record ActionSpec =
  action_name :: string
  action_fields :: "FieldSpec list"

text \<open>
  \<^verbatim>\<open>s.trim()\<close> removes white space at both ends; on bytes that is the ASCII
  white space.
\<close>

definition is_space :: "char \<Rightarrow> bool" where
  "is_space c = (c \<in> set [CHR 0x09, CHR 0x0A, CHR 0x0B, CHR 0x0C, CHR 0x0D, CHR 0x20])"

definition trim :: "string \<Rightarrow> string" where
  "trim s = rev (dropWhile is_space (rev (dropWhile is_space s)))"

definition serializeDatumFields :: "FieldSpec list \<Rightarrow> string" where
  "serializeDatumFields fs =
     join '','' (map (\<lambda>f. field_name f @ '':'' @ field_type f)
                    (filter (\<lambda>f. length (trim (field_name f)) > 0) fs))"

text \<open>The function mapped over the actions by \<^verbatim>\<open>serializeRedeemerActions\<close>.\<close>

definition serializeAction :: "ActionSpec \<Rightarrow> string" where
  "serializeAction a =
     (if length (action_fields a) = 0 then action_name a
      else (let fieldStr =
                  join '','' (map (\<lambda>f. field_name f @ '':'' @ field_type f)
                                 (filter (\<lambda>f. length (trim (field_name f)) > 0) (action_fields a)))
            in if length fieldStr > 0
               then action_name a @ ''('' @ fieldStr @ '')''
               else action_name a))"

definition serializeRedeemerActions :: "ActionSpec list \<Rightarrow> string" where
  "serializeRedeemerActions actions =
     join '','' (map serializeAction (filter (\<lambda>a. length (trim (action_name a)) > 0) actions))"

text \<open>
  The DSL as the specification writes it, to compare the serialisers with: a
  field is \<^verbatim>\<open>name:Type\<close>, a list is its items with a comma before every item
  but the first, and an action is its name, followed by its fields in
  parentheses when it has any.
\<close>

definition blank :: "string \<Rightarrow> bool" where
  "blank s = list_all is_space s"

definition field_text :: "FieldSpec \<Rightarrow> string" where
  "field_text f = field_name f @ '':'' @ field_type f"

primrec comma_tail :: "string list \<Rightarrow> string" where
  "comma_tail [] = []"
| "comma_tail (x # xs) = '','' @ x @ comma_tail xs"

definition comma_list :: "string list \<Rightarrow> string" where
  "comma_list xs = (case xs of [] \<Rightarrow> [] | x # rest \<Rightarrow> x @ comma_tail rest)"

definition action_text :: "ActionSpec \<Rightarrow> string" where
  "action_text a =
     (case filter (\<lambda>f. \<not> blank (field_name f)) (action_fields a) of
        [] \<Rightarrow> action_name a
      | f # fs \<Rightarrow> action_name a @ ''('' @ comma_list (map field_text (f # fs)) @ '')'')"

section \<open>The template catalogue and SDK support (src/web/src/lib/wasm.ts)\<close>

definition SDK_SUPPORTED_SLUGS :: "string list" where
  "SDK_SUPPORTED_SLUGS =
     [''mint'', ''simple_mint'', ''vesting'', ''escrow'', ''treasury'', ''multisig_treasury'',
      ''marketplace'', ''nft_marketplace'', ''staking'', ''staking_pool'', ''oracle'',
      ''oracle_settlement'', ''referral'', ''referral_system'']"

definition inferSdkSupport :: "string \<Rightarrow> bool" where
  "inferSdkSupport sl =
     (map (\<lambda>c. if c = CHR ''-'' then CHR ''_'' else c) (toLowerCase sl)
        \<in> set SDK_SUPPORTED_SLUGS)"

definition normalizeTemplateInfo :: "TemplateInfo \<Rightarrow> TemplateInfo" where
  "normalizeTemplateInfo t =
     t\<lparr>supports_sdk :=
         Some (case supports_sdk t of Some b \<Rightarrow> b | None \<Rightarrow> inferSdkSupport (slug t))\<rparr>"

definition FALLBACK_TEMPLATES :: "TemplateInfo list" where
  "FALLBACK_TEMPLATES =
     [\<lparr>slug = ''mint'',
       t_description = ''CIP-25 minting policy with admin signature and optional time-lock'',
       t_options = None, supports_sdk = Some True\<rparr>,
      \<lparr>slug = ''vesting'',
       t_description = ''Time-locked fund release with beneficiary claim and optional cancel'',
       t_options = None, supports_sdk = Some True\<rparr>,
      \<lparr>slug = ''escrow'',
       t_description = ''Two-party escrow with deadline, completion, and mutual cancellation'',
       t_options = None, supports_sdk = Some True\<rparr>,
      \<lparr>slug = ''treasury'',
       t_description = ''N-of-M multisig treasury with deposit, withdraw, datum continuity, and 2 ADA floor'',
       t_options = None, supports_sdk = Some True\<rparr>,
      \<lparr>slug = ''marketplace'',
       t_description = ''NFT marketplace with list, buy, and delist actions'',
       t_options = None, supports_sdk = Some True\<rparr>,
      \<lparr>slug = ''staking'',
       t_description = ''Staking pool with deposit, withdraw, and admin rewards'',
       t_options = None, supports_sdk = Some True\<rparr>,
      \<lparr>slug = ''oracle'',
       t_description = ''Oracle-gated settlement with deadline and buyer reclaim'',
       t_options = None, supports_sdk = Some True\<rparr>,
      \<lparr>slug = ''referral'',
       t_description = ''On-chain referral system with mint, treasury, and anti-sybil protection'',
       t_options = None, supports_sdk = Some True\<rparr>,
      \<lparr>slug = ''dex'',
       t_description = ''DEX/AMM pool with constant-product swaps, liquidity, and fee management'',
       t_options = None, supports_sdk = Some False\<rparr>,
      \<lparr>slug = ''lending'',
       t_description = ''Lending pool with supply, borrow, repay, and collateral ratio enforcement'',
       t_options = None, supports_sdk = Some False\<rparr>,
      \<lparr>slug = ''governance'',
       t_description = ''DAO governance with token-gated treasury and proposal execution'',
       t_options = None, supports_sdk = Some False\<rparr>,
      \<lparr>slug = ''streaming'',
       t_description = ''Streaming payments with time-based tranches and cancel/top-up'',
       t_options = None, supports_sdk = Some False\<rparr>,
      \<lparr>slug = ''custom'',
       t_description = ''Custom validator with composable features (sig, timelock, datum-continuity, ...)'',
       t_options = None, supports_sdk = Some False\<rparr>]"

definition listTemplatesFallback :: "TemplateInfo list" where
  "listTemplatesFallback = map normalizeTemplateInfo FALLBACK_TEMPLATES"

section \<open>The wizard (Wizard, in src/web/src/pages/Docs.tsx)\<close>

record WizardConfig =
  cfg_template :: string
  cfg_namespace :: string
  cfg_project_name :: string
  cfg_purpose :: "string option"
  cfg_time_lock :: "bool option"
  cfg_cancellable :: "bool option"
  cfg_partial_claim :: "bool option"
  cfg_features :: "string list option"
  cfg_datum_fields :: "FieldSpec list option"
  cfg_redeemer_actions :: "ActionSpec list option"
  cfg_generate_sdk :: "bool option"

text \<open>The component state \<^verbatim>\<open>regenerate\<close> reads and sets.\<close>

record wizard_state =
  files :: "GeneratedFile list"
  sdkFiles :: "GeneratedFile list"
  activeFile :: string
  ui_error :: "string option"
  loading :: bool

text \<open>
  \<^verbatim>\<open>templateSupportsSdk\<close>; the list \<^verbatim>\<open>templates\<close> is component state (the
  fallback list at first, the core's list once it has loaded).
\<close>

definition templateSupportsSdk :: "TemplateInfo list \<Rightarrow> string \<Rightarrow> bool" where
  "templateSupportsSdk templates sl =
     (let shortSlug = toShortTemplateSlug sl
      in case find (\<lambda>t. toShortTemplateSlug (slug t) = shortSlug) templates of
           None \<Rightarrow> False
         | Some t \<Rightarrow> (case supports_sdk t of None \<Rightarrow> False | Some b \<Rightarrow> b))"

text \<open>The options object \<^verbatim>\<open>regenerate\<close> builds from the configuration.\<close>

definition regenerate_options :: "WizardConfig \<Rightarrow> options" where
  "regenerate_options cfg =
     (let short = toShortTemplateSlug (cfg_template cfg);
          o1 = [''template'' \<mapsto> toLongTemplateSlug (cfg_template cfg),
                ''namespace'' \<mapsto> JStr (cfg_namespace cfg),
                ''project_name'' \<mapsto> JStr (cfg_project_name cfg)];
          o2 = (if short = JStr ''mint'' \<and> cfg_time_lock cfg = Some True
                then o1(''time_lock'' \<mapsto> JBool True) else o1);
          o3 = (if short = JStr ''vesting'' \<and> cfg_cancellable cfg = Some True
                then o2(''cancellable'' \<mapsto> JBool True) else o2);
          o4 = (if short = JStr ''vesting'' \<and> cfg_partial_claim cfg = Some True
                then o3(''partial_claim'' \<mapsto> JBool True) else o3)
      in if short = JStr ''custom''
         then o4(''purpose'' \<mapsto> JStr (case cfg_purpose cfg of None \<Rightarrow> ''spend'' | Some p \<Rightarrow> p),
                 ''features'' \<mapsto>
                    JStr (join '','' (case cfg_features cfg of None \<Rightarrow> [] | Some fs \<Rightarrow> fs)),
                 ''datum'' \<mapsto>
                    JStr (serializeDatumFields
                            (case cfg_datum_fields cfg of None \<Rightarrow> [] | Some fs \<Rightarrow> fs)),
                 ''redeemer'' \<mapsto>
                    JStr (serializeRedeemerActions
                            (case cfg_redeemer_actions cfg of None \<Rightarrow> [] | Some as \<Rightarrow> as)))
         else o4)"

definition error_message :: "error \<Rightarrow> string" where
  "error_message e = (case e of Error m \<Rightarrow> m | TypeError m \<Rightarrow> m)"

text \<open>
  The validation step of the custom template: it throws the joined messages
  when the specification is not valid.
\<close>

definition validate_step ::
  "bool \<Rightarrow> wasm_module option \<Rightarrow> WizardConfig \<Rightarrow> options \<Rightarrow> module_state
     \<Rightarrow> (error + unit) \<times> module_state" where
  "validate_step dev imported cfg opts ms =
     (if toShortTemplateSlug (cfg_template cfg) = JStr ''custom''
      then (case validateCustom dev imported opts ms of
              (Inl e, ms1) \<Rightarrow> (Inl e, ms1)
            | (Inr validation, ms1) \<Rightarrow>
                if \<not> valid validation
                then (Inl (Error (join ''\<newline>'' (errors validation))), ms1)
                else (Inr (), ms1))
      else (Inr (), ms))"

text \<open>
  \<^verbatim>\<open>regenerate\<close>, on the component state and the module state. An exception
  anywhere in the \<^verbatim>\<open>try\<close> block ends it in the \<^verbatim>\<open>catch\<close>, which sets the
  error and nothing else; the state set before the exception stays.
\<close>

definition regenerate ::
  "bool \<Rightarrow> wasm_module option \<Rightarrow> TemplateInfo list \<Rightarrow> WizardConfig
     \<Rightarrow> wizard_state \<times> module_state \<Rightarrow> wizard_state \<times> module_state" where
  "regenerate dev imported templates cfg st =
     (let ws0 = (fst st)\<lparr>loading := True, ui_error := None\<rparr>;
          opts = regenerate_options cfg
      in case validate_step dev imported cfg opts (snd st) of
           (Inl e, ms1) \<Rightarrow> (ws0\<lparr>ui_error := Some (error_message e), loading := False\<rparr>, ms1)
         | (Inr u, ms1) \<Rightarrow>
             (case generate dev imported opts ms1 of
                (Inl e, ms2) \<Rightarrow>
                  (ws0\<lparr>ui_error := Some (error_message e), loading := False\<rparr>, ms2)
              | (Inr generated, ms2) \<Rightarrow>
                  (let ws1 = ws0\<lparr>files := generated\<rparr>;
                       ws2 = (if generated \<noteq> [] \<and> activeFile (fst st) = []
                              then ws1\<lparr>activeFile :=
                                     (case find (\<lambda>f. prefix ''validators/'' (path f)) generated of
                                        Some validator \<Rightarrow> path validator
                                      | None \<Rightarrow> path (hd generated))\<rparr>
                              else ws1)
                   in if cfg_generate_sdk cfg = Some True
                         \<and> templateSupportsSdk templates (cfg_template cfg)
                      then (case generateSdk dev imported opts ms2 of
                              (Inl e, ms3) \<Rightarrow>
                                (ws2\<lparr>ui_error := Some (error_message e), loading := False\<rparr>, ms3)
                            | (Inr sdk, ms3) \<Rightarrow>
                                (ws2\<lparr>sdkFiles := sdk, loading := False\<rparr>, ms3))
                      else (ws2\<lparr>sdkFiles := [], loading := False\<rparr>, ms2))))"

text \<open>
  The effect that runs when the configuration, or the answer of
  \<^verbatim>\<open>templateSupportsSdk\<close>, changes.
\<close>

definition sdk_reset_effect :: "TemplateInfo list \<Rightarrow> WizardConfig \<Rightarrow> WizardConfig" where
  "sdk_reset_effect templates config =
     (if cfg_generate_sdk config = Some True
         \<and> \<not> templateSupportsSdk templates (cfg_template config)
      then config\<lparr>cfg_generate_sdk := Some False\<rparr>
      else config)"

text \<open>
  A stand-in for the compiled core, for concrete runs: it accepts no custom
  specification, renders with the fallback generator and returns one SDK file.
\<close>

definition stub_core :: wasm_module where
  "stub_core =
     \<lparr>w_list_templates = FALLBACK_TEMPLATES,
      w_list_features = FALLBACK_FEATURES,
      w_generate = (\<lambda>opts. Inr (generateFallback opts)),
      w_generate_sdk = (\<lambda>opts. Inr [\<lparr>path = ''sdk/index.ts'', content = ''export {}''\<rparr>]),
      w_validate_custom =
        (\<lambda>opts. Inr \<lparr>valid = False, errors = [''no redeemer actions'']\<rparr>)\<rparr>"

text \<open>
  The same core with another \<^verbatim>\<open>generate_sdk\<close>, wherever the core sits: in
  the outcome of the import and in the module state. Used to say that a run
  does not call \<^verbatim>\<open>generateSdk\<close>.
\<close>

definition replace_sdk ::
  "(options \<Rightarrow> error + GeneratedFile list) \<Rightarrow> wasm_module option
     \<Rightarrow> wasm_module option" where
  "replace_sdk g = map_option (\<lambda>m. m\<lparr>w_generate_sdk := g\<rparr>)"

definition replace_sdk_state ::
  "(options \<Rightarrow> error + GeneratedFile list) \<Rightarrow> module_state \<Rightarrow> module_state" where
  "replace_sdk_state g ms = ms\<lparr>wasm := replace_sdk g (wasm ms)\<rparr>"

definition initial_wizard_state :: wizard_state where
  "initial_wizard_state =
     \<lparr>files = [], sdkFiles = [], activeFile = [], ui_error = None, loading = False\<rparr>"

text \<open>\<^verbatim>\<open>DEFAULT_CONFIG\<close>, with the absent optional fields as \<open>None\<close>.\<close>

definition DEFAULT_CONFIG :: WizardConfig where
  "DEFAULT_CONFIG =
     \<lparr>cfg_template = ''mint'', cfg_namespace = ''myorg'', cfg_project_name = ''my_token'',
      cfg_purpose = Some ''spend'', cfg_time_lock = None, cfg_cancellable = None,
      cfg_partial_claim = None, cfg_features = None, cfg_datum_fields = None,
      cfg_redeemer_actions = None, cfg_generate_sdk = None\<rparr>"

section \<open>The file tree (FileTree, in src/unnamed/part_003)\<close>

text \<open>A node; \<open>node_path\<close> is the optional \<^verbatim>\<open>path\<close> that leaves carry.\<close>

datatype TreeNode =
  TreeNode (node_name: string) (fullPath: string) (node_path: "string option")
    (children: "TreeNode list")

text \<open>
  Replacing the first element that satisfies \<open>P\<close>: the node that
  \<^verbatim>\<open>current.find(...)\<close> returns is the one whose \<^verbatim>\<open>children\<close> the loop goes
  on to fill in place.
\<close>

fun update_first :: "('a \<Rightarrow> bool) \<Rightarrow> ('a \<Rightarrow> 'a) \<Rightarrow> 'a list \<Rightarrow> 'a list" where
  "update_first P f [] = []"
| "update_first P f (x # xs) = (if P x then f x # xs else x # update_first P f xs)"

text \<open>The update of \<^verbatim>\<open>accumulated\<close> in the inner loop.\<close>

definition next_acc :: "string \<Rightarrow> string \<Rightarrow> string" where
  "next_acc accumulated name =
     (if accumulated \<noteq> [] then accumulated @ ''/'' @ name else name)"

text \<open>
  The inner loop of \<^verbatim>\<open>buildTree\<close> over the remaining parts of one file's
  path, as a recursion: \<open>current\<close> is the list of nodes the loop stands at,
  \<open>accumulated\<close> the path of the parts consumed so far. The result is
  \<open>current\<close> after the loop has added its nodes below it.
\<close>

fun insertParts :: "string \<Rightarrow> string \<Rightarrow> string list \<Rightarrow> TreeNode list \<Rightarrow> TreeNode list" where
  "insertParts filePath accumulated [] current = current"
| "insertParts filePath accumulated (name # rest) current =
     (let isLeaf = (rest = []);
          acc = next_acc accumulated name
      in case find (\<lambda>n. node_name n = name) current of
           Some node \<Rightarrow>
             update_first (\<lambda>n. node_name n = name)
               (\<lambda>n. TreeNode (node_name n) (fullPath n) (node_path n)
                      (insertParts filePath acc rest (children n)))
               current
         | None \<Rightarrow>
             current @
               [TreeNode name acc (if isLeaf then Some filePath else None)
                  (insertParts filePath acc rest [])])"

definition buildTree :: "GeneratedFile list \<Rightarrow> TreeNode list" where
  "buildTree fs =
     foldl (\<lambda>root file. insertParts (path file) [] (split CHR ''/'' (path file)) root) [] fs"

text \<open>\<^verbatim>\<open>!node.path\<close>: the path is absent or the empty string.\<close>

definition path_falsy :: "string option \<Rightarrow> bool" where
  "path_falsy p = (case p of None \<Rightarrow> True | Some s \<Rightarrow> s = [])"

fun collectFolderPaths :: "TreeNode list \<Rightarrow> string list" where
  "collectFolderPaths [] = []"
| "collectFolderPaths (TreeNode n f p cs # nodes) =
     (if path_falsy p \<and> length cs > 0
      then f # collectFolderPaths cs
      else []) @ collectFolderPaths nodes"

text \<open>
  To state what the tree holds: all its nodes, parents before children; the
  paths its nodes carry; the full paths of its folders, a folder being a node
  with children and no path.
\<close>

fun all_nodes :: "TreeNode list \<Rightarrow> TreeNode list" where
  "all_nodes [] = []"
| "all_nodes (TreeNode n f p cs # nodes) = TreeNode n f p cs # all_nodes cs @ all_nodes nodes"

definition file_paths :: "TreeNode list \<Rightarrow> string list" where
  "file_paths t = List.map_filter node_path (all_nodes t)"

definition folder_paths :: "TreeNode list \<Rightarrow> string list" where
  "folder_paths t =
     map fullPath (filter (\<lambda>n. node_path n = None \<and> children n \<noteq> []) (all_nodes t))"

text \<open>
  No list is a prefix of another one in the list (in particular they are
  pairwise distinct): for the parts of file paths, no file lies at or below
  the path of another file.
\<close>

fun prefix_free :: "'a list list \<Rightarrow> bool" where
  "prefix_free [] = True"
| "prefix_free (p # ps) =
     (list_all (\<lambda>q. \<not> prefix p q \<and> \<not> prefix q p) ps \<and> prefix_free ps)"

text \<open>
  The node found by following names from the top, taking at each level the
  first node of that name, as \<^verbatim>\<open>find\<close> does.
\<close>

fun node_at :: "string list \<Rightarrow> TreeNode list \<Rightarrow> TreeNode option" where
  "node_at [] t = None"
| "node_at (n # rest) t =
     (case find (\<lambda>x. node_name x = n) t of
        None \<Rightarrow> None
      | Some nd \<Rightarrow> if rest = [] then Some nd else node_at rest (children nd))"

definition exists_at :: "string list \<Rightarrow> TreeNode list \<Rightarrow> bool" where
  "exists_at q t = (node_at q t \<noteq> None)"

definition is_file_at :: "string list \<Rightarrow> TreeNode list \<Rightarrow> bool" where
  "is_file_at q t = (case node_at q t of None \<Rightarrow> False | Some nd \<Rightarrow> node_path nd \<noteq> None)"

fun leaves_childless :: "TreeNode list \<Rightarrow> bool" where
  "leaves_childless [] = True"
| "leaves_childless (TreeNode n f p cs # nodes) =
     ((p = None \<or> cs = []) \<and> leaves_childless cs \<and> leaves_childless nodes)"

section \<open>Properties of the generator\<close>

lemma generateFallback_paths:
  "map path (generateFallback opts) =
     [''aiken.toml'',
      ''lib/'' @ js_String (nullish_or (get_prop opts ''namespace'') (JStr ''myorg'')) @ ''/'' @
        js_String (nullish_or (get_prop opts ''project_name'') (JStr ''my_contract'')) @ ''/types.ak'',
      ''validators/'' @
        js_String (nullish_or (get_prop opts ''project_name'') (JStr ''my_contract'')) @ ''.ak'']"
  by (simp add: generateFallback_def Let_def)

lemma generateFallback_types_content:
  "content (generateFallback opts ! 1) =
     generateTypesFile (js_String (nullish_or (get_prop opts ''template'') (JStr ''mint''))) opts"
  by (simp add: generateFallback_def Let_def)

lemma generateFallback_vesting_cancellable:
  assumes "get_prop opts ''template'' = JStr ''vesting''"
    and "get_prop opts ''cancellable'' = JBool True"
  shows "length (generateFallback opts) = 3
    \<and> map path (generateFallback opts) =
        [''aiken.toml'',
         ''lib/'' @ js_String (nullish_or (get_prop opts ''namespace'') (JStr ''myorg'')) @ ''/'' @
           js_String (nullish_or (get_prop opts ''project_name'') (JStr ''my_contract'')) @ ''/types.ak'',
         ''validators/'' @
           js_String (nullish_or (get_prop opts ''project_name'') (JStr ''my_contract'')) @ ''.ak'']
    \<and> content (generateFallback opts ! 1) =
        ''pub type VestingDatum {\<newline>  owner: ByteArray,\<newline>  beneficiary: ByteArray,\<newline>  deadline: Int,\<newline>  amount: Int,\<newline>}\<newline>\<newline>'' @
        ''pub type VestingRedeemer {\<newline>  Claim\<newline>  Cancel\<newline>}\<newline>''"
proof -
  have "length (map path (generateFallback opts)) = 3"
    by (simp only: generateFallback_paths) simp
  then have len: "length (generateFallback opts) = 3"
    by simp
  have "content (generateFallback opts ! 1) = generateTypesFile ''vesting'' opts"
    using assms(1) generateFallback_types_content [of opts] by simp
  then have cont: "content (generateFallback opts ! 1) =
      ''pub type VestingDatum {\<newline>  owner: ByteArray,\<newline>  beneficiary: ByteArray,\<newline>  deadline: Int,\<newline>  amount: Int,\<newline>}\<newline>\<newline>'' @
      ''pub type VestingRedeemer {\<newline>  Claim\<newline>  Cancel\<newline>}\<newline>''"
    using assms(2) by (simp add: generateTypesFile_def)
  show ?thesis
    using len cont generateFallback_paths [of opts] by blast
qed


text \<open>
  What \<^verbatim>\<open>generate\<close> returns in each of its three modes. Without a core (none
  loaded, and the import fails or has failed before) it is the fallback
  generator in a development build and an exception in a production build;
  with a core it is what the core returns. The stand-in module that
  \<^verbatim>\<open>vite.config.ts\<close> serves when the core has not been built is a core in
  this sense: its import succeeds and its \<^verbatim>\<open>generate\<close> returns \<^verbatim>\<open>"[]"\<close>, so
  \<^verbatim>\<open>generate\<close> returns no file.
\<close>

lemma generate_fallback_mode:
  assumes "wasm s = None" and "wasmFailed s \<or> imported = None"
  shows "fst (generate True imported opts s) = Inr (generateFallback opts)"
  using assms
  by (auto simp: generate_def loadWasm_def Let_def split: option.splits)

lemma generate_production_without_core:
  assumes "wasm s = None" and "wasmFailed s \<or> imported = None"
  shows "fst (generate False imported opts s) =
     Inl (Error ''WASM generation unavailable. Build web with `npm run build:full`.'')"
  using assms
  by (auto simp: generate_def loadWasm_def Let_def split: option.splits)

lemma generate_with_core:
  "fst (generate dev imported opts (s\<lparr>wasm := Some m\<rparr>)) = w_generate m opts"
  "wasm s = None \<Longrightarrow> \<not> wasmFailed s \<Longrightarrow> fst (generate dev (Some m) opts s) = w_generate m opts"
  by (simp_all add: generate_def loadWasm_def Let_def)

lemma generate_with_empty_core:
  assumes "wasm s = None" and "\<not> wasmFailed s" and "w_generate m opts = Inr []"
  shows "fst (generate dev (Some m) opts s) = Inr []"
  using assms by (simp add: generate_with_core)

text \<open>
  A second call, made in the module state the first one left behind and
  whatever a fresh import would now yield, returns what the first returned.
\<close>

lemma generate_twice_same:
  "fst (generate dev imported2 opts (snd (generate dev imported1 opts s))) =
   fst (generate dev imported1 opts s)"
  by (cases imported1)
     (simp_all add: generate_def loadWasm_def Let_def split: option.splits)

text \<open>
  C1, as stated, does not hold: \<^verbatim>\<open>generate\<close> does not return three files in
  every build. In a production build in which the compiled core cannot be
  imported it throws, for the options of the end-to-end scenario too.
\<close>

theorem C1_production_without_core_counterexample:
  "fst (generate False None
         [''template'' \<mapsto> JStr ''vesting'', ''namespace'' \<mapsto> JStr ''myorg'',
          ''project_name'' \<mapsto> JStr ''my_vesting'', ''cancellable'' \<mapsto> JBool True,
          ''partial_claim'' \<mapsto> JBool True]
         \<lparr>wasm = None, wasmFailed = False\<rparr>) =
   Inl (Error ''WASM generation unavailable. Build web with `npm run build:full`.'')"
  by (simp add: generate_production_without_core)

text \<open>
  C1, amended. For every options value with template \<^verbatim>\<open>vesting\<close> and
  \<^verbatim>\<open>cancellable: true\<close>, in a development build in which no compiled core is
  loaded and its import fails, \<^verbatim>\<open>generate\<close> returns exactly three files: the
  manifest \<^verbatim>\<open>aiken.toml\<close>, the type module
  \<^verbatim>\<open>lib/<namespace>/<project_name>/types.ak\<close> and one validator module under
  \<^verbatim>\<open>validators/\<close>; the type module ends with the declaration of
  \<^verbatim>\<open>VestingRedeemer\<close>, which has the two variants \<^verbatim>\<open>Claim\<close> and \<^verbatim>\<open>Cancel\<close>.
  In a production build under the same conditions it throws.
\<close>

theorem C1_vesting_cancellable_files:
  assumes "get_prop opts ''template'' = JStr ''vesting''"
    and "get_prop opts ''cancellable'' = JBool True"
    and "wasm s = None" and "wasmFailed s \<or> imported = None"
  shows "fst (generate True imported opts s) = Inr (generateFallback opts)
    \<and> length (generateFallback opts) = 3
    \<and> map path (generateFallback opts) =
        [''aiken.toml'',
         ''lib/'' @ js_String (nullish_or (get_prop opts ''namespace'') (JStr ''myorg'')) @ ''/'' @
           js_String (nullish_or (get_prop opts ''project_name'') (JStr ''my_contract'')) @ ''/types.ak'',
         ''validators/'' @
           js_String (nullish_or (get_prop opts ''project_name'') (JStr ''my_contract'')) @ ''.ak'']
    \<and> content (generateFallback opts ! 1) =
        ''pub type VestingDatum {\<newline>  owner: ByteArray,\<newline>  beneficiary: ByteArray,\<newline>  deadline: Int,\<newline>  amount: Int,\<newline>}\<newline>\<newline>'' @
        ''pub type VestingRedeemer {\<newline>  Claim\<newline>  Cancel\<newline>}\<newline>''
    \<and> fst (generate False imported opts s) =
        Inl (Error ''WASM generation unavailable. Build web with `npm run build:full`.'')"
  using generate_fallback_mode [OF assms(3,4), of opts]
    generate_production_without_core [OF assms(3,4), of opts]
    generateFallback_vesting_cancellable [OF assms(1,2)]
  by blast

theorem C1_vesting_cancellable_files_witness:
  "fst (generate True None
         [''template'' \<mapsto> JStr ''vesting'', ''namespace'' \<mapsto> JStr ''myorg'',
          ''project_name'' \<mapsto> JStr ''my_vesting'', ''cancellable'' \<mapsto> JBool True,
          ''partial_claim'' \<mapsto> JBool True]
         \<lparr>wasm = None, wasmFailed = False\<rparr>) =
     Inr (generateFallback
         [''template'' \<mapsto> JStr ''vesting'', ''namespace'' \<mapsto> JStr ''myorg'',
          ''project_name'' \<mapsto> JStr ''my_vesting'', ''cancellable'' \<mapsto> JBool True,
          ''partial_claim'' \<mapsto> JBool True])
   \<and> map path (generateFallback
       [''template'' \<mapsto> JStr ''vesting'', ''namespace'' \<mapsto> JStr ''myorg'',
        ''project_name'' \<mapsto> JStr ''my_vesting'', ''cancellable'' \<mapsto> JBool True,
        ''partial_claim'' \<mapsto> JBool True]) =
     [''aiken.toml'', ''lib/myorg/my_vesting/types.ak'', ''validators/my_vesting.ak'']
   \<and> content (generateFallback
       [''template'' \<mapsto> JStr ''vesting'', ''namespace'' \<mapsto> JStr ''myorg'',
        ''project_name'' \<mapsto> JStr ''my_vesting'', ''cancellable'' \<mapsto> JBool True,
        ''partial_claim'' \<mapsto> JBool True] ! 1) =
     ''pub type VestingDatum {\<newline>  owner: ByteArray,\<newline>  beneficiary: ByteArray,\<newline>  deadline: Int,\<newline>  amount: Int,\<newline>}\<newline>\<newline>pub type VestingRedeemer {\<newline>  Claim\<newline>  Cancel\<newline>}\<newline>''"
  using C1_vesting_cancellable_files
    [of "[''template'' \<mapsto> JStr ''vesting'', ''namespace'' \<mapsto> JStr ''myorg'',
          ''project_name'' \<mapsto> JStr ''my_vesting'', ''cancellable'' \<mapsto> JBool True,
          ''partial_claim'' \<mapsto> JBool True]"
        "\<lparr>wasm = None, wasmFailed = False\<rparr>" None]
  by (simp add: get_prop_def)




lemma split_acc_no_sep:
  "c \<notin> set a \<Longrightarrow> split_acc c cur a = [cur @ a]"
  by (induction a arbitrary: cur) auto

lemma split_acc_sep:
  "c \<notin> set a \<Longrightarrow> split_acc c cur (a @ c # b) = (cur @ a) # split_acc c [] b"
  by (induction a arbitrary: cur) auto

lemma ident_char_not_slash: "ident_char c \<Longrightarrow> c \<noteq> CHR ''/''"
  by (auto simp: ident_char_def)

lemma ident_char_not_dot: "ident_char c \<Longrightarrow> c \<noteq> CHR ''.''"
  by (auto simp: ident_char_def)

lemma ident_char_not_backslash: "ident_char c \<Longrightarrow> c \<noteq> CHR 0x5C"
  by (auto simp: ident_char_def)

lemma ident_segment_ok:
  assumes "s \<noteq> []" and "list_all ident_char s"
  shows "segment_ok s" and "segment_ok (s @ ''.ak'')"
proof -
  have nodot: "CHR ''.'' \<notin> set s" and nobs: "CHR 0x5C \<notin> set s"
    using assms(2) ident_char_not_dot ident_char_not_backslash
    by (auto simp: list_all_iff)
  from nodot have "s \<noteq> ''..''" by auto
  with assms(1) nobs show "segment_ok s"
    by (simp add: segment_ok_def)
  have "length (s @ ''.ak'') \<noteq> length ''..''" by simp
  then have "s @ ''.ak'' \<noteq> ''..''" by fastforce
  with nobs show "segment_ok (s @ ''.ak'')"
    by (simp add: segment_ok_def)
qed

lemma split_types_path:
  assumes "CHR ''/'' \<notin> set ns" and "CHR ''/'' \<notin> set name"
  shows "split CHR ''/'' (''lib/'' @ ns @ ''/'' @ name @ ''/types.ak'') =
         [''lib'', ns, name, ''types.ak'']"
  using assms by (simp add: split_def split_acc_sep)

lemma split_validator_path:
  assumes "CHR ''/'' \<notin> set name"
  shows "split CHR ''/'' (''validators/'' @ name @ ''.ak'') = [''validators'', name @ ''.ak'']"
  using assms by (simp add: split_def split_acc_no_sep)

text \<open>
  C6. When namespace and project name are non-empty and drawn from
  \<^verbatim>\<open>[a-z0-9_]\<close>, every returned path is relative, separated by forward
  slashes into non-empty segments none of which is \<^verbatim>\<open>..\<close>; the paths are
  pairwise distinct; the type module is
  \<^verbatim>\<open>lib/<namespace>/<project_name>/types.ak\<close> and the validator module is
  under \<^verbatim>\<open>validators/\<close>.
\<close>

theorem C6_paths_well_formed:
  assumes "get_prop opts ''namespace'' = JStr ns" and "ns \<noteq> []" and "list_all ident_char ns"
    and "get_prop opts ''project_name'' = JStr name" and "name \<noteq> []"
    and "list_all ident_char name"
  shows "list_all path_ok (map path (generateFallback opts))
    \<and> distinct (map path (generateFallback opts))
    \<and> map path (generateFallback opts) =
        [''aiken.toml'', ''lib/'' @ ns @ ''/'' @ name @ ''/types.ak'',
         ''validators/'' @ name @ ''.ak'']"
proof -
  have paths: "map path (generateFallback opts) =
      [''aiken.toml'', ''lib/'' @ ns @ ''/'' @ name @ ''/types.ak'',
       ''validators/'' @ name @ ''.ak'']"
    using assms(1,4) by (simp add: generateFallback_paths)
  have ns_slash: "CHR ''/'' \<notin> set ns" and name_slash: "CHR ''/'' \<notin> set name"
    using assms(3,6) ident_char_not_slash by (auto simp: list_all_iff)
  have p0: "path_ok ''aiken.toml''"
    by (simp add: path_ok_def is_relative_def split_def segment_ok_def)
  have "list_all segment_ok [''lib'', ns, name, ''types.ak'']"
    using ident_segment_ok(1) [OF assms(2,3)] ident_segment_ok(1) [OF assms(5,6)]
    by (simp add: segment_ok_def)
  then have p1: "path_ok (''lib/'' @ ns @ ''/'' @ name @ ''/types.ak'')"
    unfolding path_ok_def split_types_path [OF ns_slash name_slash]
    by (simp add: is_relative_def)
  have "list_all segment_ok [''validators'', name @ ''.ak'']"
    using ident_segment_ok(2) [OF assms(5,6)] by (simp add: segment_ok_def)
  then have p2: "path_ok (''validators/'' @ name @ ''.ak'')"
    unfolding path_ok_def split_validator_path [OF name_slash]
    by (simp add: is_relative_def)
  have d: "distinct [''aiken.toml'', ''lib/'' @ ns @ ''/'' @ name @ ''/types.ak'',
       ''validators/'' @ name @ ''.ak'']"
    by simp
  show ?thesis
    unfolding paths using p0 p1 p2 d by simp
qed

theorem C6_paths_well_formed_witness:
  "list_all path_ok (map path (generateFallback
        [''namespace'' \<mapsto> JStr ''myorg'', ''project_name'' \<mapsto> JStr ''my_token'']))
   \<and> distinct (map path (generateFallback
        [''namespace'' \<mapsto> JStr ''myorg'', ''project_name'' \<mapsto> JStr ''my_token'']))
   \<and> map path (generateFallback
        [''namespace'' \<mapsto> JStr ''myorg'', ''project_name'' \<mapsto> JStr ''my_token'']) =
      [''aiken.toml'', ''lib/'' @ ''myorg'' @ ''/'' @ ''my_token'' @ ''/types.ak'',
       ''validators/'' @ ''my_token'' @ ''.ak'']"
proof -
  have h1: "get_prop [''namespace'' \<mapsto> JStr ''myorg'', ''project_name'' \<mapsto> JStr ''my_token'']
      ''namespace'' = JStr ''myorg''"
    by (simp add: get_prop_def)
  have h2: "get_prop [''namespace'' \<mapsto> JStr ''myorg'', ''project_name'' \<mapsto> JStr ''my_token'']
      ''project_name'' = JStr ''my_token''"
    by (simp add: get_prop_def)
  have h3: "''myorg'' \<noteq> []" and h4: "''my_token'' \<noteq> []"
    by simp_all
  have h5: "list_all ident_char ''myorg''" and h6: "list_all ident_char ''my_token''"
    by (simp_all add: ident_char_def)
  show ?thesis
    by (rule C6_paths_well_formed [OF h1 h3 h5 h2 h4 h6])
qed

text \<open>
  C7, as stated, does not hold: nothing on the way to the fallback generator
  validates the identifiers. An empty namespace and a project name with a
  capital letter and a space still give three files.
\<close>

theorem C7_no_validation_counterexample:
  "map path (generateFallback
      [''namespace'' \<mapsto> JStr [], ''project_name'' \<mapsto> JStr ''My Project'']) =
   [''aiken.toml'', ''lib//My Project/types.ak'', ''validators/My Project.ak'']"
  by (simp add: generateFallback_paths get_prop_def)

text \<open>
  C7, amended. The configuration panel restricts namespace and project name
  to \<^verbatim>\<open>[a-z0-9_]\<close> by deleting every other character as the text is entered
  (text already in the alphabet is kept as it is, and the result may be
  empty); the fallback generator itself validates nothing and returns its
  three files for every options value.
\<close>

theorem C7_sanitized_input_and_total_generation:
  "list_all ident_char (sanitizeIdent v)
   \<and> (sanitizeIdent v = v) = list_all ident_char v
   \<and> sanitizeIdent [] = []
   \<and> length (generateFallback opts) = 3"
proof -
  have "length (map path (generateFallback opts)) = 3"
    by (simp only: generateFallback_paths) simp
  then have "length (generateFallback opts) = 3" by simp
  moreover have "(filter ident_char v = v) = list_all ident_char v"
    by (simp add: filter_id_conv list_all_iff)
  ultimately show ?thesis
    by (simp add: sanitizeIdent_def list_all_iff)
qed

section \<open>Properties of the slug conversions\<close>

lemma to_lower_idem: "to_lower (to_lower c) = to_lower c"
  by (simp add: to_lower_def)

lemma normalizeSlug_idem: "normalizeSlug (normalizeSlug s) = normalizeSlug s"
  by (induction s) (simp_all add: normalizeSlug_def toLowerCase_def to_lower_def)

text \<open>
  The ten alias pairs: the long slug is shortened, the short slug is
  lengthened back, and the short slug is a fixed point of the shortening.
\<close>

lemma alias_pairs:
  "list_all (\<lambda>(longSlug, shortSlug).
      toShortTemplateSlug longSlug = JStr shortSlug
      \<and> toLongTemplateSlug shortSlug = JStr longSlug
      \<and> toShortTemplateSlug shortSlug = JStr shortSlug) SLUG_ALIASES"
  by code_simp

lemma proto_keys_not_normal:
  "list_all (\<lambda>k. normalizeSlug k \<noteq> k) capitalised_prototype_keys"
  by code_simp

lemma object_prototype_normal:
  assumes "normalizeSlug n = n" and "n \<noteq> ''constructor''" and "n \<noteq> ''__proto__''"
  shows "object_prototype n = JUndefined"
proof -
  have "n \<notin> set capitalised_prototype_keys"
    using assms(1) proto_keys_not_normal by (auto simp: list_all_iff)
  with assms(2,3) show ?thesis
    by (simp add: object_prototype_def)
qed

lemma short_of_alias:
  assumes "map_of SLUG_ALIASES n = Some v"
  shows "toShortTemplateSlug v = JStr v"
proof -
  from assms have "(n, v) \<in> set SLUG_ALIASES"
    by (rule map_of_SomeD)
  with alias_pairs show ?thesis
    by (auto simp: list_all_iff)
qed

text \<open>
  Away from the two inherited keys that survive normalisation, the shortening
  returns a string and is idempotent.
\<close>

lemma toShortTemplateSlug_idem:
  assumes "normalizeSlug s \<noteq> ''constructor''" and "normalizeSlug s \<noteq> ''__proto__''"
  shows "\<exists>t. toShortTemplateSlug s = JStr t \<and> toShortTemplateSlug t = JStr t"
proof (cases "map_of SLUG_ALIASES (normalizeSlug s)")
  case (Some v)
  then have "toShortTemplateSlug s = JStr v"
    by (simp add: toShortTemplateSlug_def obj_get_def)
  with short_of_alias [OF Some] show ?thesis by blast
next
  case None
  let ?n = "normalizeSlug s"
  have proto: "object_prototype ?n = JUndefined"
    using assms by (intro object_prototype_normal normalizeSlug_idem)
  with None have 1: "toShortTemplateSlug s = JStr ?n"
    by (simp add: toShortTemplateSlug_def obj_get_def)
  from None proto have "toShortTemplateSlug ?n = JStr ?n"
    by (simp add: toShortTemplateSlug_def obj_get_def normalizeSlug_idem)
  with 1 show ?thesis by blast
qed

text \<open>Upper case and hyphens in the long slug make no difference.\<close>

lemma alias_variants:
  assumes "(longSlug, shortSlug) \<in> set SLUG_ALIASES" and "normalizeSlug s = longSlug"
  shows "toShortTemplateSlug s = JStr shortSlug"
proof -
  have "toShortTemplateSlug s = toShortTemplateSlug longSlug"
    using assms(2) by (auto simp: toShortTemplateSlug_def Let_def normalizeSlug_idem)
  with alias_pairs assms(1) show ?thesis
    by (auto simp: list_all_iff)
qed

text \<open>
  C9 asks for \<^verbatim>\<open>toShortTemplateSlug(toShortTemplateSlug(s))\<close> to equal
  \<^verbatim>\<open>toShortTemplateSlug(s)\<close> for every string \<open>s\<close>. At \<^verbatim>\<open>"constructor"\<close> the
  lookup in the plain object \<^verbatim>\<open>SLUG_ALIASES\<close> finds the inherited property:
  the function returns the function \<^verbatim>\<open>Object\<close>, not a string, and applying
  it again throws.
\<close>

theorem C9_constructor_slug_not_string:
  "toShortTemplateSlug ''constructor'' = JOther ''function Object() { [native code] }'' True
   \<and> call_with toShortTemplateSlug (toShortTemplateSlug ''constructor'') =
       Inl (TypeError ''slug.toLowerCase is not a function'')"
  by code_simp

section \<open>Properties of the feature selection\<close>

lemma set_foldl_set_add: "set (foldl set_add acc xs) = set acc \<union> set xs"
  by (induction xs arbitrary: acc) (auto simp: set_add_def)

lemma distinct_foldl_set_add: "distinct acc \<Longrightarrow> distinct (foldl set_add acc xs)"
  by (induction xs arbitrary: acc) (auto simp: set_add_def)

lemma set_array_of_Set: "set (array_of_Set xs) = set xs"
  by (simp add: array_of_Set_def set_foldl_set_add)

lemma set_toggle_select:
  "name \<notin> set sel \<Longrightarrow>
   set (toggleFeature features sel name) = set sel \<union> {name} \<union> set (feature_deps features name)"
  by (auto simp: toggleFeature_def set_array_of_Set Let_def)




lemma deps_selected_iff:
  "deps_selected features sel \<longleftrightarrow> (\<forall>s \<in> set sel. set (feature_deps features s) \<subseteq> set sel)"
  by (auto simp: deps_selected_def list_all_iff)

text \<open>
  For any catalogue: selecting keeps a closed selection closed as long as the
  dependencies of the new feature's dependencies are already accounted for.
  \<^verbatim>\<open>toggleFeature\<close> adds the direct dependencies only.
\<close>

lemma toggle_select_closed:
  assumes "name \<notin> set sel" and "deps_selected features sel"
    and "\<forall>d \<in> set (feature_deps features name).
           set (feature_deps features d) \<subseteq> set (feature_deps features name) \<union> set sel \<union> {name}"
  shows "deps_selected features (toggleFeature features sel name)"
  using assms unfolding deps_selected_iff set_toggle_select [OF assms(1)]
  by blast

lemma toggle_deselect_closed:
  assumes "name \<in> set sel" and "deps_selected features sel"
    and "\<not> checkbox_disabled features sel name"
  shows "deps_selected features (toggleFeature features sel name)"
proof -
  have nodep: "\<forall>s \<in> set sel. name \<notin> set (feature_deps features s)"
    using assms(1,3)
    by (auto simp: checkbox_disabled_def isDep_def list_ex_iff feature_deps_def
             split: option.splits)
  have "deps_selected features (filter (\<lambda>f. f \<noteq> name) sel)"
    using assms(2) nodep unfolding deps_selected_iff by auto
  with assms(1) show ?thesis by (simp add: toggleFeature_def)
qed


text \<open>
  The same for any catalogue the component may be given, as long as it is
  flat: every selection the component can show has the dependencies of all its
  features selected.
\<close>

lemma flat_deps_of_deps:
  assumes "flat_catalogue features" and "b \<in> set (feature_deps features a)"
  shows "feature_deps features b = []"
proof (cases "find (\<lambda>f. f_name f = a) features")
  case None
  with assms(2) show ?thesis by (simp add: feature_deps_def)
next
  case (Some f)
  then have "f \<in> set features" and "f_name f = a"
    by (auto simp: find_Some_iff)
  with assms show ?thesis
    by (auto simp: flat_catalogue_def list_all_iff)
qed

lemma fallback_catalogue_flat: "flat_catalogue FALLBACK_FEATURES"
  by code_simp

lemma reachable_selection_closed_flat:
  assumes "flat_catalogue features" and "reachable_selection features sel"
  shows "deps_selected features sel"
  using assms(2)
proof (induction rule: reachable_selection.induct)
  case initial
  show ?case by (simp add: deps_selected_def)
next
  case (click sel name)
  show ?case
  proof (cases "name \<in> set sel")
    case True
    then show ?thesis
      using click.IH click.hyps(2) by (rule toggle_deselect_closed)
  next
    case False
    have "\<forall>d \<in> set (feature_deps features name).
            set (feature_deps features d)
              \<subseteq> set (feature_deps features name) \<union> set sel \<union> {name}"
      using assms(1) by (simp add: flat_deps_of_deps)
    with False click.IH show ?thesis
      by (rule toggle_select_closed)
  qed
qed

text \<open>
  Outside the selections the component can show, \<^verbatim>\<open>toggleFeature\<close> alone
  neither repairs a selection that lacks a dependency nor cascades a removal:
  it adds the feature with its direct dependencies, or removes the one
  feature.
\<close>

lemma toggleFeature_select_does_not_repair:
  "\<not> deps_selected FALLBACK_FEATURES
       (toggleFeature FALLBACK_FEATURES [''value-preservation''] ''timelock'')"
  by code_simp

lemma toggleFeature_deselect_does_not_cascade:
  "toggleFeature FALLBACK_FEATURES [''datum-continuity'', ''value-preservation'']
      ''datum-continuity'' = [''value-preservation'']
   \<and> checkbox_disabled FALLBACK_FEATURES [''datum-continuity'', ''value-preservation'']
        ''datum-continuity''"
  by code_simp







section \<open>Properties of the serialisers\<close>

lemma dropWhile_all_iff:
  "(\<forall>x \<in> set (dropWhile P xs). P x) \<longleftrightarrow> dropWhile P xs = []"
proof
  assume all: "\<forall>x \<in> set (dropWhile P xs). P x"
  show "dropWhile P xs = []"
  proof (rule ccontr)
    assume ne: "dropWhile P xs \<noteq> []"
    then have "\<not> P (hd (dropWhile P xs))" by (rule hd_dropWhile)
    moreover from ne have "hd (dropWhile P xs) \<in> set (dropWhile P xs)" by simp
    ultimately show False using all by blast
  qed
next
  assume "dropWhile P xs = []"
  then show "\<forall>x \<in> set (dropWhile P xs). P x"
    by (simp del: dropWhile_eq_Nil_conv)
qed

lemma trim_nonempty_iff: "(trim s \<noteq> []) = (\<not> blank s)"
proof -
  have "trim s = [] \<longleftrightarrow> (\<forall>x \<in> set (dropWhile is_space s). is_space x)"
    by (simp add: trim_def)
  also have "\<dots> \<longleftrightarrow> dropWhile is_space s = []"
    by (rule dropWhile_all_iff)
  also have "\<dots> \<longleftrightarrow> blank s"
    by (simp add: blank_def list_all_iff)
  finally show ?thesis by simp
qed

lemma join_comma_tail: "join '','' (x # xs) = x @ comma_tail xs"
  by (induction xs arbitrary: x) auto

lemma join_comma_list: "join '','' xs = comma_list xs"
  by (cases xs) (simp_all add: comma_list_def join_comma_tail)

lemma comma_list_nonempty:
  "xs \<noteq> [] \<Longrightarrow> list_all (\<lambda>x. x \<noteq> []) xs \<Longrightarrow> comma_list xs \<noteq> []"
  by (cases xs) (auto simp: comma_list_def)

lemma field_text_nonempty: "field_text f \<noteq> []"
  by (simp add: field_text_def)

lemma serialized_fields:
  "join '','' (map (\<lambda>f. field_name f @ '':'' @ field_type f)
                  (filter (\<lambda>f. length (trim (field_name f)) > 0) fs)) =
   comma_list (map field_text (filter (\<lambda>f. \<not> blank (field_name f)) fs))"
  by (simp add: join_comma_list trim_nonempty_iff field_text_def [abs_def])

lemma serializeAction_spec: "serializeAction a = action_text a"
proof (cases "filter (\<lambda>f. \<not> blank (field_name f)) (action_fields a)")
  case Nil
  then show ?thesis
    unfolding serializeAction_def serialized_fields
    by (simp add: action_text_def comma_list_def)
next
  case (Cons f fs)
  then have ne: "action_fields a \<noteq> []" by auto
  have "comma_list (map field_text (f # fs)) \<noteq> []"
    by (rule comma_list_nonempty) (simp_all add: field_text_nonempty list_all_iff)
  then show ?thesis
    unfolding serializeAction_def serialized_fields
    using Cons ne by (simp add: action_text_def Let_def)
qed

text \<open>
  C8. When no field name is blank, \<^verbatim>\<open>serializeDatumFields\<close> emits exactly the
  comma-separated \<^verbatim>\<open>name:Type\<close> list of the fields, in their order.
  \<^verbatim>\<open>serializeRedeemerActions\<close> emits the comma-separated list of the actions
  with a non-blank name, each as \<^verbatim>\<open>Name(field:Type,...)\<close> over its fields
  with a non-blank name, or as the bare \<^verbatim>\<open>Name\<close> when it has no such field.
\<close>

theorem C8_serialisers_emit_dsl:
  "(list_all (\<lambda>f. \<not> blank (field_name f)) fs \<longrightarrow>
      serializeDatumFields fs = comma_list (map field_text fs))
   \<and> serializeRedeemerActions actions =
       comma_list (map action_text (filter (\<lambda>a. \<not> blank (action_name a)) actions))"
proof -
  have "list_all (\<lambda>f. \<not> blank (field_name f)) fs
      \<Longrightarrow> filter (\<lambda>f. \<not> blank (field_name f)) fs = fs"
    by (simp add: list_all_iff)
  then have 1: "list_all (\<lambda>f. \<not> blank (field_name f)) fs \<longrightarrow>
      serializeDatumFields fs = comma_list (map field_text fs)"
    unfolding serializeDatumFields_def serialized_fields by simp
  have 2: "serializeRedeemerActions actions =
       comma_list (map action_text (filter (\<lambda>a. \<not> blank (action_name a)) actions))"
    by (simp add: serializeRedeemerActions_def join_comma_list trim_nonempty_iff
          serializeAction_spec [abs_def])
  from 1 2 show ?thesis by blast
qed

theorem C8_serialisers_emit_dsl_witness:
  "list_all (\<lambda>f. \<not> blank (field_name f))
     [\<lparr>field_name = ''owner'', field_type = ''ByteArray''\<rparr>,
      \<lparr>field_name = ''deadline'', field_type = ''Int''\<rparr>]
   \<and> serializeDatumFields
       [\<lparr>field_name = ''owner'', field_type = ''ByteArray''\<rparr>,
        \<lparr>field_name = ''deadline'', field_type = ''Int''\<rparr>] = ''owner:ByteArray,deadline:Int''
   \<and> serializeRedeemerActions
       [\<lparr>action_name = ''Deposit'',
         action_fields = [\<lparr>field_name = ''amount'', field_type = ''Int''\<rparr>,
                          \<lparr>field_name = '' '', field_type = ''Int''\<rparr>]\<rparr>,
        \<lparr>action_name = ''Withdraw'', action_fields = []\<rparr>,
        \<lparr>action_name = ''Close'',
         action_fields = [\<lparr>field_name = [], field_type = ''Int''\<rparr>]\<rparr>,
        \<lparr>action_name = [], action_fields = []\<rparr>] = ''Deposit(amount:Int),Withdraw,Close''"
  using C8_serialisers_emit_dsl
    [of "[\<lparr>field_name = ''owner'', field_type = ''ByteArray''\<rparr>,
          \<lparr>field_name = ''deadline'', field_type = ''Int''\<rparr>]"
        "[\<lparr>action_name = ''Deposit'',
           action_fields = [\<lparr>field_name = ''amount'', field_type = ''Int''\<rparr>,
                            \<lparr>field_name = '' '', field_type = ''Int''\<rparr>]\<rparr>,
          \<lparr>action_name = ''Withdraw'', action_fields = []\<rparr>,
          \<lparr>action_name = ''Close'',
           action_fields = [\<lparr>field_name = [], field_type = ''Int''\<rparr>]\<rparr>,
          \<lparr>action_name = [], action_fields = []\<rparr>]"]
  by (simp add: blank_def is_space_def comma_list_def action_text_def field_text_def)

section \<open>Properties of the SDK support check\<close>

lemma unsupported_in_fallback_catalogue:
  "list_all (\<lambda>t. \<not> templateSupportsSdk listTemplatesFallback t)
     [''dex'', ''lending'', ''governance'', ''streaming'', ''custom'']"
  by code_simp

lemma regenerate_unsupported:
  assumes "\<not> templateSupportsSdk templates (cfg_template cfg)"
  shows "sdkFiles (fst (regenerate dev imported templates cfg st)) =
     (if ui_error (fst (regenerate dev imported templates cfg st)) = None then []
      else sdkFiles (fst st))"
  using assms
  by (simp add: regenerate_def Let_def split: prod.splits sum.splits)

lemma loadWasm_replace:
  "loadWasm (replace_sdk g imported) (replace_sdk_state g ms) =
     replace_sdk_state g (loadWasm imported ms)"
  by (cases imported; cases "wasm ms")
     (simp_all add: loadWasm_def replace_sdk_def replace_sdk_state_def)

lemma generate_replace:
  "generate dev (replace_sdk g imported) opts (replace_sdk_state g ms) =
     (fst (generate dev imported opts ms),
      replace_sdk_state g (snd (generate dev imported opts ms)))"
  unfolding generate_def loadWasm_replace Let_def
  by (cases "wasm (loadWasm imported ms)")
     (simp_all add: replace_sdk_state_def replace_sdk_def)

lemma validateCustom_replace:
  "validateCustom dev (replace_sdk g imported) opts (replace_sdk_state g ms) =
     (fst (validateCustom dev imported opts ms),
      replace_sdk_state g (snd (validateCustom dev imported opts ms)))"
  unfolding validateCustom_def loadWasm_replace Let_def
  by (cases "wasm (loadWasm imported ms)")
     (simp_all add: replace_sdk_state_def replace_sdk_def)

lemma validate_step_replace:
  "validate_step dev (replace_sdk g imported) cfg opts (replace_sdk_state g ms) =
     (fst (validate_step dev imported cfg opts ms),
      replace_sdk_state g (snd (validate_step dev imported cfg opts ms)))"
  unfolding validate_step_def validateCustom_replace
  by (simp split: prod.splits sum.splits)

text \<open>
  For a template without SDK support, what \<^verbatim>\<open>regenerate\<close> leaves in the
  component state does not depend on the core's \<^verbatim>\<open>generate_sdk\<close>: it is not
  called.
\<close>

lemma regenerate_ignores_sdk:
  assumes "\<not> templateSupportsSdk templates (cfg_template cfg)"
  shows "fst (regenerate dev (replace_sdk g imported) templates cfg
                (ws, replace_sdk_state g ms)) =
         fst (regenerate dev imported templates cfg (ws, ms))"
proof -
  obtain r1 ms1 where v: "validate_step dev imported cfg (regenerate_options cfg) ms = (r1, ms1)"
    by (cases "validate_step dev imported cfg (regenerate_options cfg) ms")
  obtain r2 ms2 where g: "generate dev imported (regenerate_options cfg) ms1 = (r2, ms2)"
    by (cases "generate dev imported (regenerate_options cfg) ms1")
  have v': "validate_step dev (replace_sdk g imported) cfg (regenerate_options cfg)
      (replace_sdk_state g ms) = (r1, replace_sdk_state g ms1)"
    by (simp add: validate_step_replace v)
  have g': "generate dev (replace_sdk g imported) (regenerate_options cfg)
      (replace_sdk_state g ms1) = (r2, replace_sdk_state g ms2)"
    by (simp add: generate_replace g)
  show ?thesis
    using assms
    by (cases r1; cases r2) (simp_all add: regenerate_def Let_def v v' g g')
qed

text \<open>
  C5, as stated, does not hold: the SDK file list is not always empty for an
  unsupported template. With a core loaded, generate for \<^verbatim>\<open>vesting\<close> with the
  SDK requested, then for \<^verbatim>\<open>custom\<close> with a specification the core rejects:
  \<^verbatim>\<open>regenerate\<close> throws before it reaches the SDK branch, and the list still
  holds the SDK file of the first run.
\<close>

theorem C5_stale_sdk_files_counterexample:
  "templateSupportsSdk listTemplatesFallback ''custom'' = False
   \<and> sdkFiles (fst
        (regenerate False None listTemplatesFallback
           (DEFAULT_CONFIG\<lparr>cfg_template := ''custom''\<rparr>)
           (regenerate False None listTemplatesFallback
              (DEFAULT_CONFIG\<lparr>cfg_template := ''vesting'', cfg_generate_sdk := Some True\<rparr>)
              (initial_wizard_state, \<lparr>wasm = Some stub_core, wasmFailed = False\<rparr>))))
     = [\<lparr>path = ''sdk/index.ts'', content = ''export {}''\<rparr>]"
  by code_simp

text \<open>
  C5, amended. For every configuration whose template does not support the
  SDK, \<^verbatim>\<open>regenerate\<close> requests no SDK files (its outcome is the same
  whatever the core's \<^verbatim>\<open>generate_sdk\<close> would return): when it completes
  without an error the SDK file list is empty, and when validation or
  generation throws the list is left as it was; the effect resets the
  \<^verbatim>\<open>generate_sdk\<close> flag. In the fallback catalogue dex, lending, governance,
  streaming and custom do not support the SDK.
\<close>

theorem C5_unsupported_template_no_sdk:
  assumes "\<not> templateSupportsSdk templates (cfg_template cfg)"
  shows "sdkFiles (fst (regenerate dev imported templates cfg (ws, ms))) =
       (if ui_error (fst (regenerate dev imported templates cfg (ws, ms))) = None then []
        else sdkFiles ws)
    \<and> fst (regenerate dev (replace_sdk g imported) templates cfg
              (ws, replace_sdk_state g ms)) =
       fst (regenerate dev imported templates cfg (ws, ms))
    \<and> cfg_generate_sdk (sdk_reset_effect templates cfg) \<noteq> Some True
    \<and> list_all (\<lambda>t. \<not> templateSupportsSdk listTemplatesFallback t)
         [''dex'', ''lending'', ''governance'', ''streaming'', ''custom'']"
proof -
  have "cfg_generate_sdk (sdk_reset_effect templates cfg) \<noteq> Some True"
    using assms by (simp add: sdk_reset_effect_def)
  with regenerate_unsupported [OF assms, of dev imported "(ws, ms)"]
    regenerate_ignores_sdk [OF assms] unsupported_in_fallback_catalogue
  show ?thesis by simp
qed

theorem C5_unsupported_template_no_sdk_witness:
  "sdkFiles (fst
      (regenerate True None listTemplatesFallback
         (DEFAULT_CONFIG\<lparr>cfg_template := ''dex'', cfg_generate_sdk := Some True\<rparr>)
         (initial_wizard_state, \<lparr>wasm = None, wasmFailed = False\<rparr>))) = []
   \<and> cfg_generate_sdk
       (sdk_reset_effect listTemplatesFallback
          (DEFAULT_CONFIG\<lparr>cfg_template := ''dex'', cfg_generate_sdk := Some True\<rparr>))
      \<noteq> Some True"
proof -
  have h: "\<not> templateSupportsSdk listTemplatesFallback
      (cfg_template (DEFAULT_CONFIG\<lparr>cfg_template := ''dex'', cfg_generate_sdk := Some True\<rparr>))"
    by code_simp
  have ok: "ui_error (fst
      (regenerate True None listTemplatesFallback
         (DEFAULT_CONFIG\<lparr>cfg_template := ''dex'', cfg_generate_sdk := Some True\<rparr>)
         (initial_wizard_state, \<lparr>wasm = None, wasmFailed = False\<rparr>))) = None"
    by code_simp
  have init: "sdkFiles initial_wizard_state = []"
    by (simp add: initial_wizard_state_def)
  note inst = C5_unsupported_template_no_sdk [OF h, of True None initial_wizard_state
      "\<lparr>wasm = None, wasmFailed = False\<rparr>"]
  from inst have 1: "sdkFiles (fst
      (regenerate True None listTemplatesFallback
         (DEFAULT_CONFIG\<lparr>cfg_template := ''dex'', cfg_generate_sdk := Some True\<rparr>)
         (initial_wizard_state, \<lparr>wasm = None, wasmFailed = False\<rparr>))) = []"
    by (simp only: ok init if_True if_False split: if_splits) simp
  from inst have 2: "cfg_generate_sdk
       (sdk_reset_effect listTemplatesFallback
          (DEFAULT_CONFIG\<lparr>cfg_template := ''dex'', cfg_generate_sdk := Some True\<rparr>))
      \<noteq> Some True"
    by blast
  from 1 2 show ?thesis by blast
qed

section \<open>Properties of the file tree\<close>

lemma find_append_single:
  "find P (xs @ [y]) =
     (case find P xs of Some z \<Rightarrow> Some z | None \<Rightarrow> if P y then Some y else None)"
  by (induction xs) auto

lemma find_update_first_same:
  "(\<And>x. P x \<Longrightarrow> P (f x)) \<Longrightarrow> find P (update_first P f xs) = map_option f (find P xs)"
  by (induction xs) auto

lemma find_update_first_other:
  "(\<And>x. P x \<Longrightarrow> \<not> Q x \<and> \<not> Q (f x)) \<Longrightarrow> find Q (update_first P f xs) = find Q xs"
  by (induction xs) auto

lemma find_SomeD: "find P xs = Some x \<Longrightarrow> P x \<and> x \<in> set xs"
  by (induction xs) (auto split: if_splits)

lemma insertParts_None:
  assumes "find (\<lambda>x. node_name x = name) t = None"
  shows "insertParts fp acc (name # rest) t =
     t @ [TreeNode name (next_acc acc name) (if rest = [] then Some fp else None)
            (insertParts fp (next_acc acc name) rest [])]"
  using assms by (simp add: Let_def)

lemma insertParts_Some:
  assumes "find (\<lambda>x. node_name x = name) t = Some nd"
  shows "insertParts fp acc (name # rest) t =
     update_first (\<lambda>n. node_name n = name)
       (\<lambda>n. TreeNode (node_name n) (fullPath n) (node_path n)
              (insertParts fp (next_acc acc name) rest (children n))) t"
  using assms by (simp add: Let_def)

lemma find_insertParts:
  "find (\<lambda>x. node_name x = m) (insertParts fp acc (name # rest) t) =
     (if m = name then
        (case find (\<lambda>x. node_name x = name) t of
           Some nd \<Rightarrow>
             Some (TreeNode (node_name nd) (fullPath nd) (node_path nd)
                     (insertParts fp (next_acc acc name) rest (children nd)))
         | None \<Rightarrow>
             Some (TreeNode name (next_acc acc name) (if rest = [] then Some fp else None)
                     (insertParts fp (next_acc acc name) rest [])))
      else find (\<lambda>x. node_name x = m) t)"
proof (cases "find (\<lambda>x. node_name x = name) t")
  case None
  show ?thesis
  proof (cases "m = name")
    case True
    with None show ?thesis
      by (simp only: insertParts_None [OF None] find_append_single) simp
  next
    case False
    then show ?thesis
      by (simp only: insertParts_None [OF None] find_append_single)
         (simp split: option.splits)
  qed
next
  case (Some nd)
  show ?thesis
  proof (cases "m = name")
    case True
    with Some show ?thesis
      by (simp only: insertParts_Some [OF Some]) (simp add: find_update_first_same)
  next
    case False
    then show ?thesis
      by (simp only: insertParts_Some [OF Some]) (simp add: find_update_first_other)
  qed
qed


lemma node_at_insertParts:
  "node_at (m # qs) (insertParts fp acc (name # rest) t) =
     (if m = name then
        (if qs = [] then
           (case find (\<lambda>x. node_name x = name) t of
              Some nd \<Rightarrow>
                Some (TreeNode (node_name nd) (fullPath nd) (node_path nd)
                        (insertParts fp (next_acc acc name) rest (children nd)))
            | None \<Rightarrow>
                Some (TreeNode name (next_acc acc name) (if rest = [] then Some fp else None)
                        (insertParts fp (next_acc acc name) rest [])))
         else node_at qs (insertParts fp (next_acc acc name) rest
                (case find (\<lambda>x. node_name x = name) t of
                   Some nd \<Rightarrow> children nd | None \<Rightarrow> [])))
      else node_at (m # qs) t)"
  by (simp only: node_at.simps find_insertParts) (simp split: option.splits)

lemma exists_at_Nil [simp]: "exists_at [] t = False" "exists_at q [] = False"
  by (cases q; simp add: exists_at_def)+

lemma is_file_at_Nil [simp]: "is_file_at [] t = False" "is_file_at q [] = False"
  by (cases q; simp add: is_file_at_def)+

lemma exists_at_Cons:
  "exists_at (m # qs) t =
     (case find (\<lambda>x. node_name x = m) t of
        None \<Rightarrow> False
      | Some nd \<Rightarrow> qs = [] \<or> exists_at qs (children nd))"
  by (simp add: exists_at_def split: option.splits)

lemma is_file_at_Cons:
  "is_file_at (m # qs) t =
     (case find (\<lambda>x. node_name x = m) t of
        None \<Rightarrow> False
      | Some nd \<Rightarrow> if qs = [] then node_path nd \<noteq> None else is_file_at qs (children nd))"
  by (simp add: is_file_at_def split: option.splits)

lemma exists_at_insertParts:
  "exists_at q (insertParts fp acc parts t) = (exists_at q t \<or> (q \<noteq> [] \<and> prefix q parts))"
proof (induction parts arbitrary: acc t q)
  case Nil
  then show ?case by auto
next
  case (Cons name rest)
  show ?case
  proof (cases q)
    case Nil
    then show ?thesis by simp
  next
    case (Cons m qs)
    show ?thesis
      unfolding Cons exists_at_Cons find_insertParts
      by (auto simp: Cons.IH split: option.splits)
  qed
qed

lemma is_file_at_insertParts:
  "is_file_at q (insertParts fp acc parts t) =
     (is_file_at q t \<or> (q = parts \<and> parts \<noteq> [] \<and> \<not> exists_at parts t))"
proof (induction parts arbitrary: acc t q)
  case Nil
  then show ?case by auto
next
  case (Cons name rest)
  show ?case
  proof (cases q)
    case Nil
    then show ?thesis by simp
  next
    case (Cons m qs)
    show ?thesis
      unfolding Cons is_file_at_Cons find_insertParts
      by (auto simp: Cons.IH exists_at_Cons split: option.splits)
  qed
qed


lemma all_nodes_append: "all_nodes (xs @ ys) = all_nodes xs @ all_nodes ys"
  by (induction xs rule: all_nodes.induct) auto

lemma map_filter_append: "List.map_filter f (xs @ ys) = List.map_filter f xs @ List.map_filter f ys"
  by (simp add: List.map_filter_def)

lemma file_paths_simps:
  "file_paths [] = []"
  "file_paths (TreeNode n f p cs # nodes) =
     (case p of Some x \<Rightarrow> [x] | None \<Rightarrow> []) @ file_paths cs @ file_paths nodes"
  by (simp_all add: file_paths_def map_filter_append split: option.splits)

lemma file_paths_append: "file_paths (xs @ ys) = file_paths xs @ file_paths ys"
  by (simp add: file_paths_def all_nodes_append map_filter_append)

lemma folder_paths_simps:
  "folder_paths [] = []"
  "folder_paths (TreeNode n f p cs # nodes) =
     (if p = None \<and> cs \<noteq> [] then [f] else []) @ folder_paths cs @ folder_paths nodes"
  by (simp_all add: folder_paths_def)

lemma leaves_childless_append:
  "leaves_childless (xs @ ys) = (leaves_childless xs \<and> leaves_childless ys)"
  by (induction xs rule: leaves_childless.induct) auto

lemma mset_file_paths_update_first:
  assumes "find P xs = Some nd"
  shows "mset (file_paths (update_first P
            (\<lambda>n. TreeNode (node_name n) (fullPath n) (node_path n) (h n)) xs))
          + mset (file_paths (children nd))
       = mset (file_paths xs) + mset (file_paths (h nd))"
  using assms
proof (induction xs)
  case Nil
  then show ?case by simp
next
  case (Cons x xs)
  then show ?case
    by (cases x) (auto simp: file_paths_simps split: if_splits option.splits)
qed

lemma mset_file_paths_insertParts:
  "mset (file_paths (insertParts fp acc parts t)) =
     mset (file_paths t) + (if parts \<noteq> [] \<and> \<not> exists_at parts t then {#fp#} else {#})"
proof (induction parts arbitrary: acc t)
  case Nil
  then show ?case by simp
next
  case (Cons name rest)
  show ?case
  proof (cases "find (\<lambda>x. node_name x = name) t")
    case None
    then show ?thesis
      unfolding insertParts_None [OF None]
      by (simp add: file_paths_append file_paths_simps Cons.IH exists_at_Cons)
  next
    case (Some nd)
    have "mset (file_paths (insertParts fp acc (name # rest) t)) + mset (file_paths (children nd))
        = mset (file_paths t)
          + mset (file_paths (insertParts fp (next_acc acc name) rest (children nd)))"
      unfolding insertParts_Some [OF Some]
      by (rule mset_file_paths_update_first [OF Some])
    also have "\<dots> = mset (file_paths t) + mset (file_paths (children nd))
          + (if rest \<noteq> [] \<and> \<not> exists_at rest (children nd) then {#fp#} else {#})"
      by (simp add: Cons.IH)
    finally have "mset (file_paths (insertParts fp acc (name # rest) t)) =
        mset (file_paths t)
          + (if rest \<noteq> [] \<and> \<not> exists_at rest (children nd) then {#fp#} else {#})"
      by simp
    then show ?thesis
      using Some by (auto simp: exists_at_Cons)
  qed
qed

lemma leaves_childless_find:
  assumes "leaves_childless xs" and "find P xs = Some nd"
  shows "leaves_childless (children nd) \<and> (node_path nd = None \<or> children nd = [])"
  using assms
proof (induction xs)
  case Nil
  then show ?case by simp
next
  case (Cons x xs)
  then show ?case by (cases x) (auto split: if_splits)
qed

lemma leaves_childless_update_first:
  assumes "leaves_childless xs" and "find P xs = Some nd"
    and "leaves_childless (h nd)" and "node_path nd = None \<or> h nd = []"
  shows "leaves_childless (update_first P
            (\<lambda>n. TreeNode (node_name n) (fullPath n) (node_path n) (h n)) xs)"
  using assms
proof (induction xs)
  case Nil
  then show ?case by simp
next
  case (Cons x xs)
  then show ?case by (cases x) (auto split: if_splits)
qed

lemma leaves_childless_insertParts:
  assumes "leaves_childless t"
    and "\<forall>q. q \<noteq> [] \<and> strict_prefix q parts \<longrightarrow> \<not> is_file_at q t"
  shows "leaves_childless (insertParts fp acc parts t)"
  using assms
proof (induction parts arbitrary: acc t)
  case Nil
  then show ?case by simp
next
  case (Cons name rest)
  show ?case
  proof (cases "find (\<lambda>x. node_name x = name) t")
    case None
    have "leaves_childless (insertParts fp (next_acc acc name) rest [])"
      by (rule Cons.IH) simp_all
    with Cons.prems(1) show ?thesis
      unfolding insertParts_None [OF None]
      by (simp add: leaves_childless_append)
  next
    case (Some nd)
    from leaves_childless_find [OF Cons.prems(1) Some]
    have lc: "leaves_childless (children nd)"
      and leaf: "node_path nd = None \<or> children nd = []"
      by simp_all
    have below: "\<forall>q. q \<noteq> [] \<and> strict_prefix q rest \<longrightarrow> \<not> is_file_at q (children nd)"
    proof (intro allI impI)
      fix q assume q: "q \<noteq> [] \<and> strict_prefix q rest"
      then have "name # q \<noteq> [] \<and> strict_prefix (name # q) (name # rest)"
        by simp
      with Cons.prems(2) have "\<not> is_file_at (name # q) t" by blast
      with Some q show "\<not> is_file_at q (children nd)"
        by (simp add: is_file_at_Cons)
    qed
    have 1: "leaves_childless (insertParts fp (next_acc acc name) rest (children nd))"
      by (rule Cons.IH [OF lc below])
    have 2: "node_path nd = None \<or> insertParts fp (next_acc acc name) rest (children nd) = []"
    proof (cases "rest = []")
      case True
      with leaf show ?thesis by simp
    next
      case False
      then have "[name] \<noteq> [] \<and> strict_prefix [name] (name # rest)"
        by (simp add: strict_prefix_def)
      with Cons.prems(2) have "\<not> is_file_at [name] t" by blast
      with Some show ?thesis by (simp add: is_file_at_Cons)
    qed
    show ?thesis
      unfolding insertParts_Some [OF Some]
      using leaves_childless_update_first
        [of t "\<lambda>n. node_name n = name" nd
            "\<lambda>n. insertParts fp (next_acc acc name) rest (children n)",
         OF Cons.prems(1) Some 1 2]
      by simp
  qed
qed

lemma collectFolderPaths_folder_paths:
  "leaves_childless t \<Longrightarrow> collectFolderPaths t = folder_paths t"
proof (induction t rule: collectFolderPaths.induct)
  case 1
  then show ?case by (simp add: folder_paths_simps)
next
  case (2 n f p cs nodes)
  then show ?case
    by (auto simp: folder_paths_simps path_falsy_def split: option.splits)
qed


lemma split_acc_nonempty: "split_acc c cur s \<noteq> []"
  by (induction s arbitrary: cur) auto

lemma split_nonempty: "split c s \<noteq> []"
  by (simp add: split_def split_acc_nonempty)

lemma buildTree_snoc:
  "buildTree (fs @ [f]) =
     insertParts (path f) [] (split CHR ''/'' (path f)) (buildTree fs)"
  by (simp add: buildTree_def)

lemma buildTree_Nil: "buildTree [] = []"
  by (simp add: buildTree_def)

lemma prefix_free_snoc:
  "prefix_free (ps @ [p]) =
     (prefix_free ps \<and> (\<forall>q \<in> set ps. \<not> prefix p q \<and> \<not> prefix q p))"
  by (induction ps) (auto simp: list_all_iff)

lemma prefix_free_distinct: "prefix_free ps \<Longrightarrow> distinct ps"
  by (induction ps) (auto simp: list_all_iff)

lemma exists_at_buildTree:
  "exists_at q (buildTree fs) =
     (q \<noteq> [] \<and> (\<exists>f \<in> set fs. prefix q (split CHR ''/'' (path f))))"
proof (induction fs rule: rev_induct)
  case Nil
  then show ?case by (simp add: buildTree_Nil)
next
  case (snoc f fs)
  then show ?case
    by (auto simp: buildTree_snoc exists_at_insertParts)
qed

lemma is_file_at_buildTree:
  "is_file_at q (buildTree fs) \<Longrightarrow> \<exists>f \<in> set fs. q = split CHR ''/'' (path f)"
proof (induction fs rule: rev_induct)
  case Nil
  then show ?case by (simp add: buildTree_Nil)
next
  case (snoc f fs)
  then show ?case
    by (auto simp: buildTree_snoc is_file_at_insertParts)
qed

lemma buildTree_invariant:
  assumes "prefix_free (map (\<lambda>f. split CHR ''/'' (path f)) fs)"
  shows "mset (file_paths (buildTree fs)) = mset (map path fs)
    \<and> leaves_childless (buildTree fs)"
  using assms
proof (induction fs rule: rev_induct)
  case Nil
  then show ?case by (simp add: buildTree_Nil file_paths_simps)
next
  case (snoc f fs)
  let ?parts = "split CHR ''/'' (path f)"
  from snoc.prems have pf: "prefix_free (map (\<lambda>f. split CHR ''/'' (path f)) fs)"
    and other: "\<forall>g \<in> set fs. \<not> prefix ?parts (split CHR ''/'' (path g))
        \<and> \<not> prefix (split CHR ''/'' (path g)) ?parts"
    by (simp_all add: prefix_free_snoc)
  from snoc.IH [OF pf]
  have ih_m: "mset (file_paths (buildTree fs)) = mset (map path fs)"
    and ih_l: "leaves_childless (buildTree fs)"
    by simp_all
  have fresh: "\<not> exists_at ?parts (buildTree fs)"
    using other by (auto simp: exists_at_buildTree)
  have m: "mset (file_paths (buildTree (fs @ [f]))) = mset (map path (fs @ [f]))"
    using fresh ih_m
    by (simp add: buildTree_snoc mset_file_paths_insertParts split_nonempty)
  have "\<forall>q. q \<noteq> [] \<and> strict_prefix q ?parts \<longrightarrow> \<not> is_file_at q (buildTree fs)"
  proof (intro allI impI notI)
    fix q assume q: "q \<noteq> [] \<and> strict_prefix q ?parts" and "is_file_at q (buildTree fs)"
    then obtain g where "g \<in> set fs" and "q = split CHR ''/'' (path g)"
      using is_file_at_buildTree by blast
    with other q show False
      by (auto simp: strict_prefix_def)
  qed
  with ih_l have l: "leaves_childless (buildTree (fs @ [f]))"
    unfolding buildTree_snoc by (rule leaves_childless_insertParts)
  from m l show ?case by blast
qed

lemma distinct_paths:
  assumes "prefix_free (map (\<lambda>f. split CHR ''/'' (path f)) fs)"
  shows "distinct (map path fs)"
proof -
  have "distinct (map (split CHR ''/'') (map path fs))"
    using prefix_free_distinct [OF assms] by (simp add: comp_def)
  then show ?thesis by (auto simp: distinct_map inj_on_def)
qed

text \<open>
  C10, as stated for pairwise-distinct paths, does not hold: after \<^verbatim>\<open>a/b\<close>
  the file \<^verbatim>\<open>a\<close> finds the folder node \<^verbatim>\<open>a\<close> in place and gets no node of
  its own.
\<close>

theorem C10_file_shadowed_by_folder_counterexample:
  "distinct (map path [\<lparr>path = ''a/b'', content = []\<rparr>, \<lparr>path = ''a'', content = []\<rparr>])
   \<and> file_paths (buildTree [\<lparr>path = ''a/b'', content = []\<rparr>, \<lparr>path = ''a'', content = []\<rparr>])
      = [''a/b'']"
  by code_simp

text \<open>
  C10, amended. For every list of generated files in which no file's path,
  read as its list of \<^verbatim>\<open>/\<close>-separated parts, is a prefix of another file's
  (so the paths are pairwise distinct and no file lies where another file
  needs a folder), the tree of \<^verbatim>\<open>buildTree\<close> has, for each input file, exactly
  one node whose path is that file's path, and no other node with a path; and
  \<^verbatim>\<open>collectFolderPaths\<close> returns exactly the full paths of the nodes that
  have children and no path, parents before children.
\<close>

theorem C10_tree_holds_every_file_once:
  assumes "prefix_free (map (\<lambda>f. split CHR ''/'' (path f)) fs)"
  shows "mset (file_paths (buildTree fs)) = mset (map path fs)
    \<and> distinct (file_paths (buildTree fs))
    \<and> collectFolderPaths (buildTree fs) = folder_paths (buildTree fs)"
proof -
  from buildTree_invariant [OF assms]
  have m: "mset (file_paths (buildTree fs)) = mset (map path fs)"
    and l: "leaves_childless (buildTree fs)"
    by simp_all
  from m distinct_paths [OF assms] have "distinct (file_paths (buildTree fs))"
    using mset_eq_imp_distinct_iff by blast
  with m collectFolderPaths_folder_paths [OF l] show ?thesis by blast
qed

theorem C10_tree_holds_every_file_once_witness:
  "mset (file_paths (buildTree
       [\<lparr>path = ''aiken.toml'', content = []\<rparr>,
        \<lparr>path = ''lib/myorg/my_token/types.ak'', content = []\<rparr>,
        \<lparr>path = ''validators/my_token.ak'', content = []\<rparr>]))
     = mset (map path
       [\<lparr>path = ''aiken.toml'', content = []\<rparr>,
        \<lparr>path = ''lib/myorg/my_token/types.ak'', content = []\<rparr>,
        \<lparr>path = ''validators/my_token.ak'', content = []\<rparr>])
   \<and> distinct (file_paths (buildTree
       [\<lparr>path = ''aiken.toml'', content = []\<rparr>,
        \<lparr>path = ''lib/myorg/my_token/types.ak'', content = []\<rparr>,
        \<lparr>path = ''validators/my_token.ak'', content = []\<rparr>]))
   \<and> collectFolderPaths (buildTree
       [\<lparr>path = ''aiken.toml'', content = []\<rparr>,
        \<lparr>path = ''lib/myorg/my_token/types.ak'', content = []\<rparr>,
        \<lparr>path = ''validators/my_token.ak'', content = []\<rparr>])
     = folder_paths (buildTree
       [\<lparr>path = ''aiken.toml'', content = []\<rparr>,
        \<lparr>path = ''lib/myorg/my_token/types.ak'', content = []\<rparr>,
        \<lparr>path = ''validators/my_token.ak'', content = []\<rparr>])"
proof -
  have h: "prefix_free (map (\<lambda>f. split CHR ''/'' (path f))
       [\<lparr>path = ''aiken.toml'', content = []\<rparr>,
        \<lparr>path = ''lib/myorg/my_token/types.ak'', content = []\<rparr>,
        \<lparr>path = ''validators/my_token.ak'', content = []\<rparr>])"
    by code_simp
  show ?thesis
    by (rule C10_tree_holds_every_file_once [OF h])
qed

end
